theory Spec2Isabelle
  imports Main "HOL-Library.Word" "HOL-Library.Extended_Nat"
begin

unbundle bit_operations_syntax

section \<open>Common data\<close>

text \<open>
  The codecs take and return \<open>Uint8Array\<close>s: lists of 8-bit words. Storing a number
  into a \<open>Uint8Array\<close> keeps its low eight bits, which is what \<open>of_nat\<close> into
  \<open>8 word\<close> does. Indices, lengths and costs are JavaScript numbers that stay far
  below 2^53 and are modelled as \<open>nat\<close> (or \<open>int\<close> where the code uses -1).
\<close>

type_synonym byte = "8 word"

text \<open>The failures of section 7 of the specification, one constructor per kind of
  \<open>throw\<close> in the sources; \<open>TypeError\<close> and \<open>RangeError\<close> are the JavaScript runtime's own
  failures, on reading a property of \<open>undefined\<close> or \<open>null\<close> and on
  \<open>TypedArray.set\<close> with a source that does not fit.\<close>

datatype error =
    InputTooLarge
  | TruncatedStream
  | InvalidHeader
  | InvalidBackReference
  | InvalidQValue
  | TypeError
  | RangeError

section \<open>MDK-RLE (js/codecs/mdkrle.js)\<close>

text \<open>The look-ahead of \<open>compress\<close>: the length of the run of identical bytes at \<open>i\<close>.\<close>

function run_length :: "byte list \<Rightarrow> nat \<Rightarrow> nat \<Rightarrow> nat" where
  "run_length inputData i runLength =
     (if i + runLength < length inputData \<and> inputData ! i = inputData ! (i + runLength)
      then run_length inputData i (runLength + 1)
      else runLength)"
  by pat_completeness auto
termination
  by (relation "measure (\<lambda>(inp, i, r). length inp - (i + r))") auto

declare run_length.simps [simp del]

text \<open>The loop of \<open>flushRaw\<close>: RAW packets of at most 128 bytes.\<close>

function flushRaw_loop :: "byte list \<Rightarrow> nat \<Rightarrow> byte list \<Rightarrow> byte list" where
  "flushRaw_loop rawBuffer offset compressed =
     (if offset < length rawBuffer then
        (let chunkSize = min (length rawBuffer - offset) 128 in
         flushRaw_loop rawBuffer (offset + chunkSize)
           (compressed @ [of_nat (chunkSize - 1)] @ take chunkSize (drop offset rawBuffer)))
      else compressed)"
  by pat_completeness auto
termination
  by (relation "measure (\<lambda>(rb, off, c). length rb - off)") auto

declare flushRaw_loop.simps [simp del]

text \<open>\<open>flushRaw\<close> on the pair (compressed, rawBuffer).\<close>

definition flushRaw :: "byte list \<times> byte list \<Rightarrow> byte list \<times> byte list" where
  "flushRaw s =
     (case s of (compressed, rawBuffer) \<Rightarrow>
        if length rawBuffer = 0 then (compressed, rawBuffer)
        else (flushRaw_loop rawBuffer 0 compressed, []))"

text \<open>The inner loop that splits a run into RLE packets of at most 127.\<close>

function rle_loop :: "byte \<Rightarrow> nat \<Rightarrow> byte list \<Rightarrow> byte list" where
  "rle_loop v remainingRun compressed =
     (if remainingRun > 0 then
        (let chunkSize = min remainingRun 127 in
         rle_loop v (remainingRun - chunkSize)
           (compressed @ [of_nat (0x80 OR (chunkSize - 1)), v]))
      else compressed)"
  by pat_completeness auto
termination
  by (relation "measure (\<lambda>(v, r, c). r)") auto

declare rle_loop.simps [simp del]

function mdk_loop :: "byte list \<Rightarrow> nat \<Rightarrow> byte list \<Rightarrow> byte list \<Rightarrow> byte list \<times> byte list" where
  "mdk_loop inputData i compressed rawBuffer =
     (if i < length inputData then
        (let runLength = run_length inputData i 1 in
         if runLength \<ge> 3 then
           (case flushRaw (compressed, rawBuffer) of (c, rb) \<Rightarrow>
              mdk_loop inputData (i + runLength) (rle_loop (inputData ! i) runLength c) rb)
         else mdk_loop inputData (i + 1) compressed (rawBuffer @ [inputData ! i]))
      else (compressed, rawBuffer))"
  by pat_completeness auto
termination
  by (relation "measure (\<lambda>(inp, i, c, rb). length inp - i)") auto

declare mdk_loop.simps [simp del]

definition mdk_compress :: "byte list \<Rightarrow> byte list" where
  "mdk_compress inputData =
     (if length inputData = 0 then [0xFF]
      else (case mdk_loop inputData 0 [] [] of (c, rb) \<Rightarrow>
              fst (flushRaw (c, rb)) @ [0xFF]))"

function mdk_dec_loop :: "byte list \<Rightarrow> nat \<Rightarrow> byte list \<Rightarrow> error + byte list" where
  "mdk_dec_loop compressedData i decompressed =
     (if i < length compressedData then
        (let controlByte = compressedData ! i; i1 = i + 1 in
         if controlByte = 0xFF then Inr decompressed
         else if controlByte < 0x80 then
           (let len = unat controlByte + 1 in
            if i1 + len > length compressedData then Inl TruncatedStream
            else mdk_dec_loop compressedData (i1 + len)
                   (decompressed @ take len (drop i1 compressedData)))
         else
           (let len = unat (controlByte AND 0x7F) + 1 in
            if i1 \<ge> length compressedData then Inl TruncatedStream
            else mdk_dec_loop compressedData (i1 + 1)
                   (decompressed @ replicate len (compressedData ! i1))))
      else Inr decompressed)"
  by pat_completeness auto
termination
  by (relation "measure (\<lambda>(cd, i, out). length cd - i)") auto

declare mdk_dec_loop.simps [simp del]

definition mdk_decompress :: "byte list \<Rightarrow> error + byte list" where
  "mdk_decompress compressedData =
     (if length compressedData = 0 then Inr []
      else mdk_dec_loop compressedData 0 [])"

section \<open>BitBuster v1.2 decoder (BitBusterV12Codec.decompress)\<close>

text \<open>
  Reading a \<open>Uint8Array\<close> out of range gives \<open>undefined\<close>, which is stored back into
  a \<open>Uint8Array\<close> as 0; writing out of range is ignored, as \<open>list_update\<close> does.
\<close>

definition u8_get :: "byte list \<Rightarrow> nat \<Rightarrow> byte" where
  "u8_get xs j = (if j < length xs then xs ! j else 0)"

text \<open>The decoder's cursor \<open>pos\<close> and its bit holder \<open>bitMask\<close>, \<open>bitByte\<close>.\<close>

record bb_reader =
  bb_pos :: nat
  bb_bitMask :: nat
  bb_bitByte :: byte

definition bb_readBit :: "byte list \<Rightarrow> bb_reader \<Rightarrow> error + (nat \<times> bb_reader)" where
  "bb_readBit bytes r =
     (if bb_bitMask r = 0 \<and> bb_pos r \<ge> length bytes then Inl TruncatedStream
      else
        (let r1 = (if bb_bitMask r = 0
                   then r\<lparr>bb_bitByte := bytes ! bb_pos r, bb_pos := bb_pos r + 1,
                          bb_bitMask := 0x80\<rparr>
                   else r);
             b = (if unat (bb_bitByte r1) AND bb_bitMask r1 \<noteq> 0 then 1 else 0)
         in Inr (b, r1\<lparr>bb_bitMask := drop_bit 1 (bb_bitMask r1)\<rparr>)))"

definition bb_readByte :: "byte list \<Rightarrow> bb_reader \<Rightarrow> error + (byte \<times> bb_reader)" where
  "bb_readByte bytes r =
     (if bb_pos r \<ge> length bytes then Inl TruncatedStream
      else Inr (bytes ! bb_pos r, r\<lparr>bb_pos := bb_pos r + 1\<rparr>))"

text \<open>The first loop of \<open>readGammaEx\<close>: count leading 1 bits and stop at 16. Every
  successful \<open>readBit\<close> either advances the cursor or shortens the mask, which is why
  the loop ends.\<close>

function bb_gamma_ones :: "byte list \<Rightarrow> bb_reader \<Rightarrow> nat \<Rightarrow> error + (nat \<times> bb_reader)" where
  "bb_gamma_ones bytes r k =
     (case bb_readBit bytes r of
        Inl e \<Rightarrow> Inl e
      | Inr (b, r') \<Rightarrow>
          if b = 1 then
            (if k + 1 = 16 then Inr (k + 1, r')
             else bb_gamma_ones bytes r' (k + 1))
          else Inr (k, r'))"
  by pat_completeness auto
termination
  by (relation "inv_image (less_than <*lex*> less_than)
                  (\<lambda>(bytes, r, k). (length bytes - bb_pos r, bb_bitMask r))")
     (auto simp: bb_readBit_def Let_def drop_bit_eq_div split: if_splits)

declare bb_gamma_ones.simps [simp del]

text \<open>The second loop of \<open>readGammaEx\<close>: \<open>k\<close> payload bits below a leading 1.\<close>

fun bb_gamma_bits :: "byte list \<Rightarrow> bb_reader \<Rightarrow> nat \<Rightarrow> nat \<Rightarrow> error + (nat \<times> bb_reader)" where
  "bb_gamma_bits bytes r 0 val = Inr (val, r)"
| "bb_gamma_bits bytes r (Suc n) val =
     (case bb_readBit bytes r of
        Inl e \<Rightarrow> Inl e
      | Inr (b, r') \<Rightarrow> bb_gamma_bits bytes r' n (push_bit 1 val OR b))"

text \<open>\<open>readGammaEx\<close> returns the pair (value, k).\<close>

definition bb_readGammaEx :: "byte list \<Rightarrow> bb_reader \<Rightarrow> error + ((nat \<times> nat) \<times> bb_reader)" where
  "bb_readGammaEx bytes r =
     (case bb_gamma_ones bytes r 0 of
        Inl e \<Rightarrow> Inl e
      | Inr (k, r1) \<Rightarrow>
          if k = 16 then Inr ((0, k), r1)
          else (case bb_gamma_bits bytes r1 k 1 of
                  Inl e \<Rightarrow> Inl e
                | Inr (val, r2) \<Rightarrow> Inr ((val - 1, k), r2)))"

text \<open>The four bits of an extended distance.\<close>

definition bb_readHi :: "byte list \<Rightarrow> bb_reader \<Rightarrow> error + (nat \<times> bb_reader)" where
  "bb_readHi bytes r = bb_gamma_bits bytes r 4 0"

text \<open>The copy loop \<open>for (k = 0; k < len; k++) out[i + k] = out[ref + k]\<close>.\<close>

function bb_copy :: "byte list \<Rightarrow> nat \<Rightarrow> nat \<Rightarrow> nat \<Rightarrow> nat \<Rightarrow> byte list" where
  "bb_copy out i ref k len =
     (if k < len then bb_copy (out[i + k := u8_get out (ref + k)]) i ref (k + 1) len
      else out)"
  by pat_completeness auto
termination
  by (relation "measure (\<lambda>(out, i, ref, k, len). len - k)") auto

declare bb_copy.simps [simp del]

text \<open>The tail that the three match branches of the source repeat:
  \<open>ref = i - dist; if (ref < 0) throw; for (k < len) out[i + k] = out[ref + k]; i += len\<close>.
  The length \<open>(g.value + 2) | 0\<close> is below 2^31, so the coercion changes nothing.\<close>

definition bb_match :: "byte list \<Rightarrow> nat \<Rightarrow> nat \<Rightarrow> nat \<Rightarrow> error + (nat \<times> byte list)" where
  "bb_match out i distance len =
     (if i < distance then Inl InvalidBackReference
      else Inr (i + len, bb_copy out i (i - distance) 0 len))"

function bb_dec_loop :: "byte list \<Rightarrow> nat \<Rightarrow> bb_reader \<Rightarrow> nat \<Rightarrow> byte list \<Rightarrow> error + byte list" where
  "bb_dec_loop bytes outLen r i out =
     (if i < outLen then
        (case bb_readBit bytes r of
           Inl e \<Rightarrow> Inl e
         | Inr (tag, r1) \<Rightarrow>
             if tag = 0 then
               (case bb_readByte bytes r1 of
                  Inl e \<Rightarrow> Inl e
                | Inr (b, r2) \<Rightarrow> bb_dec_loop bytes outLen r2 (i + 1) (out[i := b]))
             else
               (case bb_readByte bytes r1 of
                  Inl e \<Rightarrow> Inl e
                | Inr (b0, r2) \<Rightarrow>
                    if b0 = 0 then
                      (case bb_readGammaEx bytes r2 of
                         Inl e \<Rightarrow> Inl e
                       | Inr ((v, k), r3) \<Rightarrow>
                           if k = 16 then Inr out
                           else (case bb_match out i 1 (v + 2) of
                                   Inl e \<Rightarrow> Inl e
                                 | Inr (i', out') \<Rightarrow> bb_dec_loop bytes outLen r3 i' out'))
                    else if b0 AND 0x80 = 0 then
                      (case bb_readGammaEx bytes r2 of
                         Inl e \<Rightarrow> Inl e
                       | Inr ((v, k), r3) \<Rightarrow>
                           (case bb_match out i (unat (b0 AND 0x7F) + 1) (v + 2) of
                              Inl e \<Rightarrow> Inl e
                            | Inr (i', out') \<Rightarrow> bb_dec_loop bytes outLen r3 i' out'))
                    else
                      (case bb_readHi bytes r2 of
                         Inl e \<Rightarrow> Inl e
                       | Inr (hi, r3) \<Rightarrow>
                           (case bb_readGammaEx bytes r3 of
                              Inl e \<Rightarrow> Inl e
                            | Inr ((v, k), r4) \<Rightarrow>
                                (case bb_match out i
                                        ((unat (b0 AND 0x7F) OR push_bit 7 hi) + 1) (v + 2) of
                                   Inl e \<Rightarrow> Inl e
                                 | Inr (i', out') \<Rightarrow>
                                     bb_dec_loop bytes outLen r4 i' out')))))
      else Inr out)"
  by pat_completeness auto
termination
  by (relation "measure (\<lambda>(bytes, outLen, r, i, out). outLen - i)")
     (auto simp: bb_match_def split: if_splits)

declare bb_dec_loop.simps [simp del]

text \<open>\<open>getUint32(0, true)\<close>: the little-endian value of the first four bytes.\<close>

definition bb_header_length :: "byte list \<Rightarrow> nat" where
  "bb_header_length bytes =
     unat (bytes ! 0) + 256 * unat (bytes ! 1) + 65536 * unat (bytes ! 2)
       + 16777216 * unat (bytes ! 3)"

definition bb_decompress :: "byte list \<Rightarrow> error + byte list" where
  "bb_decompress bytes =
     (if length bytes < 4 then Inl TruncatedStream
      else
        (let outLen = bb_header_length bytes in
         bb_dec_loop bytes outLen \<lparr>bb_pos = 4, bb_bitMask = 0, bb_bitByte = 0\<rparr> 0
           (replicate outLen 0)))"

section \<open>LZF, end-marker variant (js/codecs/lzf.js)\<close>

text \<open>The entries of \<open>path\<close>: \<open>{type: 'literal', length, from}\<close> and
  \<open>{type: 'match', length, offset, from}\<close>.\<close>

datatype lzf_op =
    Literal (op_length: nat) (op_from: nat)
  | Match (op_length: nat) (op_offset: nat) (op_from: nat)

definition literalCost :: "nat \<Rightarrow> nat" where
  "literalCost len = 1 + len"

definition matchCost :: "nat \<Rightarrow> nat" where
  "matchCost len = (if len \<le> 8 then 2 else 3)"

text \<open>The tables \<open>dp\<close> (with \<open>Infinity\<close> as \<open>\<infinity>\<close>) and \<open>path\<close> (with \<open>null\<close> as
  \<open>None\<close>), and the update both inner loops make:
  \<open>if (cost < dp[k]) { dp[k] = cost; path[k] = op; }\<close>.\<close>

type_synonym lzf_tables = "enat list \<times> lzf_op option list"

definition lzf_relax :: "lzf_tables \<Rightarrow> nat \<Rightarrow> enat \<Rightarrow> lzf_op \<Rightarrow> lzf_tables" where
  "lzf_relax st k cost opn =
     (case st of (dp, path) \<Rightarrow>
        if cost < dp ! k then (dp[k := cost], path[k := Some opn]) else st)"

text \<open>Option 1: \<open>for (len = 1; len <= 32 && i + len <= n; len++)\<close>.\<close>

function lzf_lit_loop :: "nat \<Rightarrow> nat \<Rightarrow> nat \<Rightarrow> lzf_tables \<Rightarrow> lzf_tables" where
  "lzf_lit_loop n i len st =
     (if len \<le> 32 \<and> i + len \<le> n then
        lzf_lit_loop n i (len + 1)
          (lzf_relax st (i + len) (fst st ! i + enat (literalCost len)) (Literal len i))
      else st)"
  by pat_completeness auto
termination
  by (relation "measure (\<lambda>(n, i, len, st). 33 - len)") auto

declare lzf_lit_loop.simps [simp del]

text \<open>The match extension
  \<open>while (i + len < n && input[p + len] === input[i + len] && len < MAX_LENGTH) len++\<close>.\<close>

function lzf_match_len :: "byte list \<Rightarrow> nat \<Rightarrow> nat \<Rightarrow> nat \<Rightarrow> nat" where
  "lzf_match_len input p i len =
     (if i + len < length input \<and> input ! (p + len) = input ! (i + len) \<and> len < 256
      then lzf_match_len input p i (len + 1)
      else len)"
  by pat_completeness auto
termination
  by (relation "measure (\<lambda>(input, p, i, len). 256 - len)") auto

declare lzf_match_len.simps [simp del]

text \<open>Option 2: \<open>for (p = searchStart; p < i; p++)\<close>.\<close>

function lzf_match_loop :: "byte list \<Rightarrow> nat \<Rightarrow> nat \<Rightarrow> lzf_tables \<Rightarrow> lzf_tables" where
  "lzf_match_loop input i p st =
     (if p < i then
        (let len = lzf_match_len input p i 0 in
         lzf_match_loop input i (p + 1)
           (if len \<ge> 3
            then lzf_relax st (i + len) (fst st ! i + enat (matchCost len)) (Match len (i - p) i)
            else st))
      else st)"
  by pat_completeness auto
termination
  by (relation "measure (\<lambda>(input, i, p, st). i - p)") auto

declare lzf_match_loop.simps [simp del]

text \<open>The main loop over \<open>i\<close>; \<open>Math.max(0, i - MAX_OFFSET)\<close> is the subtraction of
  \<open>nat\<close>, which stops at 0.\<close>

function lzf_dp_loop :: "byte list \<Rightarrow> nat \<Rightarrow> lzf_tables \<Rightarrow> lzf_tables" where
  "lzf_dp_loop input i st =
     (if i < length input then
        (if fst st ! i = \<infinity> then lzf_dp_loop input (i + 1) st
         else
           (let st1 = lzf_lit_loop (length input) i 1 st;
                searchStart = i - 7936;
                st2 = lzf_match_loop input i searchStart st1
            in lzf_dp_loop input (i + 1) st2))
      else st)"
  by pat_completeness auto
termination
  by (relation "measure (\<lambda>(input, i, st). length input - i)") auto

declare lzf_dp_loop.simps [simp del]

text \<open>The walk back along \<open>path\<close>:
  \<open>for (pos = n; pos > 0; pos = path[pos].from) operations.unshift(path[pos])\<close>.
  A \<open>null\<close> entry makes \<open>path[pos].from\<close> a TypeError; a walk that never reaches 0
  is the value \<open>None\<close>.\<close>

partial_function (option) lzf_reconstruct ::
  "lzf_op option list \<Rightarrow> nat \<Rightarrow> lzf_op list \<Rightarrow> (error + lzf_op list) option" where
  "lzf_reconstruct path pos operations =
     (if pos > 0 then
        (case path ! pos of
           None \<Rightarrow> Some (Inl TypeError)
         | Some opn \<Rightarrow> lzf_reconstruct path (op_from opn) (opn # operations))
      else Some (Inr operations))"

declare lzf_reconstruct.simps [code]

text \<open>The bytes one operation pushes to \<open>output\<close>; the numbers pushed are reduced to
  bytes when \<open>output\<close> becomes a \<open>Uint8Array\<close>.\<close>

definition lzf_emit_op :: "byte list \<Rightarrow> lzf_op \<Rightarrow> byte list" where
  "lzf_emit_op input opn =
     (case opn of
        Literal len frm \<Rightarrow>
          of_nat (len - 1) # map (\<lambda>i. input ! (frm + i)) [0..<len]
      | Match len offset frm \<Rightarrow>
          (let storedOffset = offset - 1 in
           if len \<le> 8 then
             [of_nat (push_bit 5 (len - 2) OR (drop_bit 8 storedOffset AND 0x1F)),
              of_nat (storedOffset AND 0xFF)]
           else
             [of_nat (0xE0 OR (drop_bit 8 storedOffset AND 0x1F)),
              of_nat (len - 9),
              of_nat (storedOffset AND 0xFF)]))"

text \<open>The operations chosen for an input: the tables after the main loop, walked back
  from \<open>n\<close>.\<close>

definition lzf_operations :: "byte list \<Rightarrow> (error + lzf_op list) option" where
  "lzf_operations input =
     (let n = length input;
          st = lzf_dp_loop input 0 ((replicate (n + 1) \<infinity>)[0 := 0], replicate (n + 1) None)
      in lzf_reconstruct (snd st) n [])"

definition lzf_compress :: "byte list \<Rightarrow> (error + byte list) option" where
  "lzf_compress input =
     (case lzf_operations input of
        None \<Rightarrow> None
      | Some (Inl e) \<Rightarrow> Some (Inl e)
      | Some (Inr operations) \<Rightarrow>
          Some (Inr (concat (map (lzf_emit_op input) operations) @ [0xFF])))"

text \<open>The decoder reads \<open>input[pos++]\<close> without a bounds check. Out of range the read
  is \<open>undefined\<close>: pushed to the output it ends as 0 in the \<open>Uint8Array\<close>, in
  \<open>x | undefined\<close> it counts as 0, and \<open>undefined + 9\<close> is \<open>NaN\<close>, for which the copy
  loop does not run. \<open>copyPos\<close> can be negative, and \<open>output[copyPos + i]\<close> is then
  \<open>undefined\<close> as well.\<close>

function lzf_copy :: "byte list \<Rightarrow> int \<Rightarrow> nat \<Rightarrow> nat \<Rightarrow> byte list" where
  "lzf_copy output copyPos i len =
     (if i < len then
        lzf_copy (output @ [if 0 \<le> copyPos + int i \<and> nat (copyPos + int i) < length output
                            then output ! nat (copyPos + int i) else 0])
          copyPos (i + 1) len
      else output)"
  by pat_completeness auto
termination
  by (relation "measure (\<lambda>(output, copyPos, i, len). len - i)") auto

declare lzf_copy.simps [simp del]

function lzf_dec_loop :: "byte list \<Rightarrow> nat \<Rightarrow> byte list \<Rightarrow> byte list" where
  "lzf_dec_loop input pos output =
     (if pos < length input \<and> input ! pos \<noteq> 0xFF then
        (let byte = input ! pos; pos1 = pos + 1; control = drop_bit 5 (unat byte) in
         if control = 0 then
           (let len = unat (byte AND 0x1F) + 1 in
            lzf_dec_loop input (pos1 + len)
              (output @ map (\<lambda>i. u8_get input (pos1 + i)) [0..<len]))
         else if control = 7 then
           (let len = (if pos1 < length input then unat (input ! pos1) + 9 else 0);
                storedOffset = push_bit 8 (unat (byte AND 0x1F)) OR unat (u8_get input (pos1 + 1));
                copyPos = int (length output) - (int storedOffset + 1)
            in lzf_dec_loop input (pos1 + 2) (lzf_copy output copyPos 0 len))
         else
           (let len = control + 2;
                storedOffset = push_bit 8 (unat (byte AND 0x1F)) OR unat (u8_get input pos1);
                copyPos = int (length output) - (int storedOffset + 1)
            in lzf_dec_loop input (pos1 + 1) (lzf_copy output copyPos 0 len)))
      else output)"
  by pat_completeness auto
termination
  by (relation "measure (\<lambda>(input, pos, output). length input - pos)") auto

declare lzf_dec_loop.simps [simp del]

definition lzf_decompress :: "byte list \<Rightarrow> byte list" where
  "lzf_decompress input = lzf_dec_loop input 0 []"

text \<open>What the main loop guarantees of an entry stored at \<open>path[k]\<close>: a literal run of
  1 to 32 bytes or a match of 3 to 256 bytes at an offset of 1 to 7936, ending at \<open>k\<close>.\<close>

definition lzf_op_ok :: "nat \<Rightarrow> lzf_op \<Rightarrow> bool" where
  "lzf_op_ok k opn =
     (case opn of
        Literal len frm \<Rightarrow> 1 \<le> len \<and> len \<le> 32 \<and> frm + len = k
      | Match len offset frm \<Rightarrow>
          3 \<le> len \<and> len \<le> 256 \<and> 1 \<le> offset \<and> offset \<le> 7936 \<and> frm + len = k)"

definition lzf_inv :: "nat \<Rightarrow> lzf_tables \<Rightarrow> bool" where
  "lzf_inv n st =
     (length (fst st) = n + 1 \<and> length (snd st) = n + 1 \<and>
      (\<forall>k. 0 < k \<and> k \<le> n \<longrightarrow>
         (fst st ! k \<noteq> \<infinity> \<longrightarrow> snd st ! k \<noteq> None) \<and>
         (\<forall>opn. snd st ! k = Some opn \<longrightarrow> lzf_op_ok k opn)))"

section \<open>DAN1 (js/codecs/dan1.js)\<close>

text \<open>The constants of the constructor; \<open>MAX\<close> is its parameter \<open>maxSize\<close>, 512 * 1024
  when the codec is built without an argument, as the application does.\<close>

definition dan1_default_MAX :: nat where
  "dan1_default_MAX = 512 * 1024"

abbreviation (input) d1_MAX_LEN :: nat where "d1_MAX_LEN \<equiv> 65535"
abbreviation (input) d1_BIT_OFFSET1 :: nat where "d1_BIT_OFFSET1 \<equiv> 1"
abbreviation (input) d1_BIT_OFFSET2 :: nat where "d1_BIT_OFFSET2 \<equiv> 4"
abbreviation (input) d1_BIT_OFFSET3 :: nat where "d1_BIT_OFFSET3 \<equiv> 8"
abbreviation (input) d1_BIT_OFFSET4 :: nat where "d1_BIT_OFFSET4 \<equiv> 12"
abbreviation (input) d1_MAX_OFFSET1 :: nat where "d1_MAX_OFFSET1 \<equiv> 2"
abbreviation (input) d1_MAX_OFFSET2 :: nat where "d1_MAX_OFFSET2 \<equiv> 18"
abbreviation (input) d1_MAX_OFFSET3 :: nat where "d1_MAX_OFFSET3 \<equiv> 274"
abbreviation (input) d1_MAX_OFFSET :: nat where "d1_MAX_OFFSET \<equiv> 4370"
abbreviation (input) d1_RLE_MIN :: nat where "d1_RLE_MIN \<equiv> 27"
abbreviation (input) d1_RLE_RANGE :: nat where "d1_RLE_RANGE \<equiv> 256"

subsection \<open>Bit writer\<close>

text \<open>
  \<open>data_dest\<close> is a \<open>Uint8Array\<close> of \<open>2 * MAX\<close> bytes: an array read as a function of
  the index, in which a write at or beyond the capacity \<open>cap\<close> is dropped while
  \<open>index_dest\<close> still advances. \<open>bit_mask\<close> and \<open>bit_index\<close> are the fields the
  writer and the reader share; each call resets them before use.
\<close>

record d1_writer =
  d1_data_dest :: "nat \<Rightarrow> byte"
  d1_index_dest :: nat
  d1_bit_mask :: nat
  d1_bit_index :: nat

definition d1_store :: "nat \<Rightarrow> (nat \<Rightarrow> byte) \<Rightarrow> nat \<Rightarrow> byte \<Rightarrow> (nat \<Rightarrow> byte)" where
  "d1_store cap a i v = (if i < cap then a(i := v) else a)"

definition d1_resetWriter :: "d1_writer" where
  "d1_resetWriter = \<lparr>d1_data_dest = (\<lambda>_. 0), d1_index_dest = 0, d1_bit_mask = 0, d1_bit_index = 0\<rparr>"

definition d1_writeByte :: "nat \<Rightarrow> nat \<Rightarrow> d1_writer \<Rightarrow> d1_writer" where
  "d1_writeByte cap v w =
     w\<lparr>d1_data_dest := d1_store cap (d1_data_dest w) (d1_index_dest w) (of_nat v),
       d1_index_dest := d1_index_dest w + 1\<rparr>"

definition d1_writeBit :: "nat \<Rightarrow> nat \<Rightarrow> d1_writer \<Rightarrow> d1_writer" where
  "d1_writeBit cap b w =
     (let w1 = (if d1_bit_mask w = 0
                then d1_writeByte cap 0 (w\<lparr>d1_bit_mask := 128, d1_bit_index := d1_index_dest w\<rparr>)
                else w);
          w2 = (if b \<noteq> 0
                then w1\<lparr>d1_data_dest :=
                         d1_store cap (d1_data_dest w1) (d1_bit_index w1)
                           (d1_data_dest w1 (d1_bit_index w1) OR of_nat (d1_bit_mask w1))\<rparr>
                else w1)
      in w2\<lparr>d1_bit_mask := drop_bit 1 (d1_bit_mask w2)\<rparr>)"

text \<open>\<open>_writeBits\<close>: \<open>mask\<close> starts at \<open>2^size\<close> and is halved before each bit.\<close>

function d1_writeBits_loop :: "nat \<Rightarrow> nat \<Rightarrow> nat \<Rightarrow> d1_writer \<Rightarrow> d1_writer" where
  "d1_writeBits_loop cap v msk w =
     (if msk > 1 then
        (let msk' = drop_bit 1 msk in
         d1_writeBits_loop cap v msk' (d1_writeBit cap (v AND msk') w))
      else w)"
  by pat_completeness auto
termination
  by (relation "measure (\<lambda>(cap, v, msk, w). msk)") (auto simp: drop_bit_eq_div)

declare d1_writeBits_loop.simps [simp del]

definition d1_writeBits :: "nat \<Rightarrow> nat \<Rightarrow> nat \<Rightarrow> d1_writer \<Rightarrow> d1_writer" where
  "d1_writeBits cap v sz w = d1_writeBits_loop cap v (push_bit sz 1) w"

text \<open>\<open>_writeEliasGamma\<close>. The first loop is \<open>for (i = 2; i <= value; i <<= 1)\<close>; it is
  entered with \<open>i = 2\<close>, and \<open>0 < i\<close> stands in the guard only because the recursion must
  end from every \<open>i\<close>. It returns the final \<open>i\<close> for the second loop,
  \<open>while ((i >>= 1) > 0) writeBit(value & i)\<close>.\<close>

function d1_gamma_zeros :: "nat \<Rightarrow> nat \<Rightarrow> nat \<Rightarrow> d1_writer \<Rightarrow> nat \<times> d1_writer" where
  "d1_gamma_zeros cap v i w =
     (if 0 < i \<and> i \<le> v then d1_gamma_zeros cap v (push_bit 1 i) (d1_writeBit cap 0 w)
      else (i, w))"
  by pat_completeness auto
termination
  by (relation "measure (\<lambda>(cap, v, i, w). Suc v - i)") (auto simp: push_bit_eq_mult)

declare d1_gamma_zeros.simps [simp del]

function d1_gamma_value :: "nat \<Rightarrow> nat \<Rightarrow> nat \<Rightarrow> d1_writer \<Rightarrow> d1_writer" where
  "d1_gamma_value cap v i w =
     (let i' = drop_bit 1 i in
      if i' > 0 then d1_gamma_value cap v i' (d1_writeBit cap (v AND i') w)
      else w)"
  by pat_completeness auto
termination
  by (relation "measure (\<lambda>(cap, v, i, w). i)") (auto simp: drop_bit_eq_div)

declare d1_gamma_value.simps [simp del]

definition d1_writeEliasGamma :: "nat \<Rightarrow> nat \<Rightarrow> d1_writer \<Rightarrow> d1_writer" where
  "d1_writeEliasGamma cap v w =
     (case d1_gamma_zeros cap v 2 w of (i, w1) \<Rightarrow> d1_gamma_value cap v i w1)"

definition d1_writeOffset :: "nat \<Rightarrow> nat \<Rightarrow> nat \<Rightarrow> d1_writer \<Rightarrow> d1_writer" where
  "d1_writeOffset cap offset optionLen w =
     (let v = offset - 1 in
      if v \<ge> d1_MAX_OFFSET3 then
        (let w1 = d1_writeBit cap 1 w;
             v1 = v - d1_MAX_OFFSET3;
             w2 = d1_writeBits cap (drop_bit 8 v1) (d1_BIT_OFFSET4 - 8) w1
         in d1_writeByte cap (v1 AND 0xFF) w2)
      else if v \<ge> d1_MAX_OFFSET2 then
        (let w1 = (if optionLen > 2 then d1_writeBit cap 0 w else w);
             w2 = d1_writeBit cap 1 w1;
             v1 = v - d1_MAX_OFFSET2
         in d1_writeByte cap (v1 AND 0xFF) w2)
      else if v \<ge> d1_MAX_OFFSET1 then
        (let w1 = (if optionLen > 2 then d1_writeBit cap 0 w else w);
             w2 = (if optionLen > 1 then d1_writeBit cap 0 w1 else w1);
             w3 = d1_writeBit cap 1 w2;
             v1 = v - d1_MAX_OFFSET1
         in d1_writeBits cap v1 d1_BIT_OFFSET2 w3)
      else
        (let w1 = (if optionLen > 2 then d1_writeBit cap 0 w else w);
             w2 = (if optionLen > 1 then d1_writeBit cap 0 w1 else w1);
             w3 = d1_writeBit cap 0 w2
         in d1_writeBits cap v d1_BIT_OFFSET1 w3))"

definition d1_writeDoublet :: "nat \<Rightarrow> nat \<Rightarrow> nat \<Rightarrow> d1_writer \<Rightarrow> d1_writer" where
  "d1_writeDoublet cap len offset w =
     d1_writeOffset cap offset len (d1_writeEliasGamma cap len (d1_writeBit cap 0 w))"

definition d1_writeLiteralsLength :: "nat \<Rightarrow> nat \<Rightarrow> d1_writer \<Rightarrow> d1_writer" where
  "d1_writeLiteralsLength cap len w =
     d1_writeByte cap (len - d1_RLE_MIN)
       (d1_writeBit cap 1 (d1_writeBits cap 0 16 (d1_writeBit cap 0 w)))"

definition d1_writeLiteral :: "nat \<Rightarrow> byte \<Rightarrow> d1_writer \<Rightarrow> d1_writer" where
  "d1_writeLiteral cap c w = d1_writeByte cap (unat c) (d1_writeBit cap 1 w)"

definition d1_writeEnd :: "nat \<Rightarrow> d1_writer \<Rightarrow> d1_writer" where
  "d1_writeEnd cap w = d1_writeBit cap 0 (d1_writeBits cap 0 16 (d1_writeBit cap 0 w))"

text \<open>\<open>data_dest.slice(0, index_dest)\<close>; \<open>slice\<close> stops at the end of the array.\<close>

definition d1_result :: "nat \<Rightarrow> d1_writer \<Rightarrow> byte list" where
  "d1_result cap w = map (d1_data_dest w) [0..<min (d1_index_dest w) cap]"

subsection \<open>Bit reader\<close>

text \<open>
  \<open>data_src\<close> after \<open>data_src.set(compressed)\<close> on a new instance: the stream, then
  zeros; beyond the array a read is \<open>undefined\<close>, which the reader's \<open>&\<close> turns into 0
  too. So every read is \<open>u8_get compressed\<close>.
\<close>

record d1_reader =
  d1_index_src :: nat
  d1_rd_bit_mask :: nat
  d1_rd_bit_index :: nat

definition d1_readByte :: "byte list \<Rightarrow> d1_reader \<Rightarrow> byte \<times> d1_reader" where
  "d1_readByte src r = (u8_get src (d1_index_src r), r\<lparr>d1_index_src := d1_index_src r + 1\<rparr>)"

definition d1_readBit :: "byte list \<Rightarrow> d1_reader \<Rightarrow> nat \<times> d1_reader" where
  "d1_readBit src r =
     (let r1 = (if d1_rd_bit_mask r = 0
                then r\<lparr>d1_rd_bit_mask := 128, d1_rd_bit_index := d1_index_src r,
                       d1_index_src := d1_index_src r + 1\<rparr>
                else r);
          b = (if unat (u8_get src (d1_rd_bit_index r1)) AND d1_rd_bit_mask r1 \<noteq> 0
               then 1 else 0)
      in (b, r1\<lparr>d1_rd_bit_mask := drop_bit 1 (d1_rd_bit_mask r1)\<rparr>))"

text \<open>\<open>_readBits(n)\<close> with its accumulator \<open>v\<close>.\<close>

fun d1_readBits_from :: "byte list \<Rightarrow> nat \<Rightarrow> nat \<Rightarrow> d1_reader \<Rightarrow> nat \<times> d1_reader" where
  "d1_readBits_from src 0 v r = (v, r)"
| "d1_readBits_from src (Suc n) v r =
     (case d1_readBit src r of (b, r') \<Rightarrow> d1_readBits_from src n (push_bit 1 v OR b) r')"

definition d1_readBits :: "byte list \<Rightarrow> nat \<Rightarrow> d1_reader \<Rightarrow> nat \<times> d1_reader" where
  "d1_readBits src n r = d1_readBits_from src n 0 r"

definition d1_readNibble :: "byte list \<Rightarrow> d1_reader \<Rightarrow> nat \<times> d1_reader" where
  "d1_readNibble src r = d1_readBits src 4 r"

text \<open>The first loop of \<open>_readEliasGamma\<close>:
  \<open>while (counter < 17) { b = readBit(); counter++; if (b === 1) break; }\<close>.\<close>

function d1_gamma_count :: "byte list \<Rightarrow> nat \<Rightarrow> d1_reader \<Rightarrow> nat \<times> d1_reader" where
  "d1_gamma_count src counter r =
     (if counter < 17 then
        (case d1_readBit src r of (b, r') \<Rightarrow>
           if b = 1 then (counter + 1, r') else d1_gamma_count src (counter + 1) r')
      else (counter, r))"
  by pat_completeness auto
termination
  by (relation "measure (\<lambda>(src, counter, r). 17 - counter)") auto

declare d1_gamma_count.simps [simp del]

definition d1_readEliasGamma :: "byte list \<Rightarrow> d1_reader \<Rightarrow> nat \<times> d1_reader" where
  "d1_readEliasGamma src r =
     (case d1_gamma_count src 0 r of (counter, r1) \<Rightarrow>
        if counter \<ge> 17 then (0, r1)
        else d1_readBits_from src (counter - 1) 1 r1)"

definition d1_readOffset :: "byte list \<Rightarrow> nat \<Rightarrow> d1_reader \<Rightarrow> nat \<times> d1_reader" where
  "d1_readOffset src optionLen r =
     (let (b3, r3) = (if optionLen > 2 then d1_readBit src r else (0, r)) in
      if optionLen > 2 \<and> b3 \<noteq> 0 then
        (case d1_readNibble src r3 of (n, r4) \<Rightarrow>
           case d1_readByte src r4 of (lo, r5) \<Rightarrow>
             (push_bit 8 (n + 1) + unat lo + 18, r5))
      else
        (let (b2, r2) = (if optionLen > 1 then d1_readBit src r3 else (0, r3)) in
         if optionLen > 1 \<and> b2 \<noteq> 0 then
           (case d1_readByte src r2 of (lo, r4) \<Rightarrow> (unat lo + 18, r4))
         else
           (case d1_readBit src r2 of (b1, r1) \<Rightarrow>
              if b1 \<noteq> 0 then
                (case d1_readNibble src r1 of (n, r4) \<Rightarrow> (n + 2, r4))
              else
                (case d1_readBit src r1 of (b0, r0) \<Rightarrow>
                   (if b0 \<noteq> 0 then 1 else 0, r0)))))"

subsection \<open>DAN1 decoder\<close>

definition d1_load :: "nat \<Rightarrow> (nat \<Rightarrow> byte) \<Rightarrow> nat \<Rightarrow> byte" where
  "d1_load cap a i = (if i < cap then a i else 0)"

text \<open>The match copy \<open>for (i < len) data_dest[index_dest + i] = data_dest[from + i]\<close>.\<close>

function d1_copy :: "nat \<Rightarrow> (nat \<Rightarrow> byte) \<Rightarrow> nat \<Rightarrow> nat \<Rightarrow> nat \<Rightarrow> nat \<Rightarrow> (nat \<Rightarrow> byte)" where
  "d1_copy cap dest idx frm i len =
     (if i < len
      then d1_copy cap (d1_store cap dest (idx + i) (d1_load cap dest (frm + i))) idx frm (i + 1) len
      else dest)"
  by pat_completeness auto
termination
  by (relation "measure (\<lambda>(cap, dest, idx, frm, i, len). len - i)") auto

declare d1_copy.simps [simp del]

text \<open>The RAW block \<open>for (i < rleLen) writeByte(readByte())\<close>.\<close>

fun d1_raw_copy :: "nat \<Rightarrow> byte list \<Rightarrow> nat \<Rightarrow> d1_reader \<Rightarrow> d1_writer \<Rightarrow> d1_reader \<times> d1_writer" where
  "d1_raw_copy cap src 0 r w = (r, w)"
| "d1_raw_copy cap src (Suc n) r w =
     (case d1_readByte src r of (v, r') \<Rightarrow>
        d1_raw_copy cap src n r' (d1_writeByte cap (unat v) w))"

text \<open>The token loop \<open>while (index_src <= compressed.length)\<close>. It is a partial function:
  not returning is \<open>None\<close>.\<close>

partial_function (option) d1_dec_loop ::
  "nat \<Rightarrow> byte list \<Rightarrow> d1_reader \<Rightarrow> d1_writer \<Rightarrow> (error + d1_writer) option" where
  "d1_dec_loop cap compressed r w =
     (if d1_index_src r \<le> length compressed then
        (case d1_readBit compressed r of (b, r1) \<Rightarrow>
           if b = 1 then
             (case d1_readByte compressed r1 of (v, r2) \<Rightarrow>
                d1_dec_loop cap compressed r2 (d1_writeByte cap (unat v) w))
           else
             (case d1_readEliasGamma compressed r1 of (len, r2) \<Rightarrow>
                if len \<noteq> 0 then
                  (case d1_readOffset compressed len r2 of (v, r3) \<Rightarrow>
                     if int (d1_index_dest w) - int v - 1 < 0
                     then Some (Inl InvalidBackReference)
                     else
                       d1_dec_loop cap compressed r3
                         (w\<lparr>d1_data_dest :=
                              d1_copy cap (d1_data_dest w) (d1_index_dest w)
                                (d1_index_dest w - v - 1) 0 len,
                            d1_index_dest := d1_index_dest w + len\<rparr>))
                else
                  (case d1_readBit compressed r2 of (b2, r3) \<Rightarrow>
                     if b2 = 1 then
                       (case d1_readByte compressed r3 of (lb, r4) \<Rightarrow>
                          (case d1_raw_copy cap compressed (unat lb + d1_RLE_MIN) r4 w of
                             (r5, w5) \<Rightarrow> d1_dec_loop cap compressed r5 w5))
                     else Some (Inr w))))
      else Some (Inr w))"

declare d1_dec_loop.simps [code]

text \<open>\<open>decompress\<close> on an instance built with \<open>maxSize = MAX\<close>. \<open>data_src.set\<close> raises a
  RangeError when the stream is longer than \<open>data_src\<close>.\<close>

definition dan1_decompress :: "nat \<Rightarrow> byte list \<Rightarrow> (error + byte list) option" where
  "dan1_decompress maxSize compressed =
     (if length compressed > maxSize then Some (Inl RangeError)
      else if length compressed = 0 then Some (Inr [])
      else
        (case d1_readByte compressed \<lparr>d1_index_src = 0, d1_rd_bit_mask = 0, d1_rd_bit_index = 0\<rparr> of
           (v, r1) \<Rightarrow>
             (case d1_dec_loop (2 * maxSize) compressed r1
                     (d1_writeByte (2 * maxSize) (unat v) d1_resetWriter) of
                None \<Rightarrow> None
              | Some (Inl e) \<Rightarrow> Some (Inl e)
              | Some (Inr w) \<Rightarrow> Some (Inr (d1_result (2 * maxSize) w)))))"

subsection \<open>DAN1 cost model and optimal parse\<close>

function d1_eliasGammaBits_loop :: "nat \<Rightarrow> nat \<Rightarrow> nat" where
  "d1_eliasGammaBits_loop v bits =
     (if v > 1 then d1_eliasGammaBits_loop (drop_bit 1 v) (bits + 2) else bits)"
  by pat_completeness auto
termination
  by (relation "measure (\<lambda>(v, bits). v)") (auto simp: drop_bit_eq_div)

declare d1_eliasGammaBits_loop.simps [simp del]

definition d1_eliasGammaBits :: "nat \<Rightarrow> nat" where
  "d1_eliasGammaBits v = d1_eliasGammaBits_loop v 1"

definition d1_countBits :: "nat \<Rightarrow> nat \<Rightarrow> nat" where
  "d1_countBits offset len =
     (let bits = 1 + d1_eliasGammaBits len in
      if len = 1 then
        bits + 1 + (if offset > d1_MAX_OFFSET1 then d1_BIT_OFFSET2 else d1_BIT_OFFSET1)
      else if len = 2 then
        bits + 1 + (if offset > d1_MAX_OFFSET2 then d1_BIT_OFFSET3
                    else 1 + (if offset > d1_MAX_OFFSET1 then d1_BIT_OFFSET2 else d1_BIT_OFFSET1))
      else
        bits + 1 + (if offset > d1_MAX_OFFSET3 then d1_BIT_OFFSET4
                    else 1 + (if offset > d1_MAX_OFFSET2 then d1_BIT_OFFSET3
                              else 1 + (if offset > d1_MAX_OFFSET1 then d1_BIT_OFFSET2
                                        else d1_BIT_OFFSET1))))"

text \<open>
  An entry of \<open>optimals\<close>. Of the \<open>MAX\<close> entries the encoder resets and uses the first
  \<open>index_src\<close>, so the table is a list of that length. The hash chains are the arrays
  \<open>match_heads\<close> (filled with -1 by \<open>_resetMatches\<close>) and \<open>match_prev\<close>, read as
  functions of the index.
\<close>

record d1_optimal =
  d1_bits :: nat
  d1_offset :: nat
  d1_len :: nat

record d1_state =
  d1_optimals :: "d1_optimal list"
  d1_match_heads :: "nat \<Rightarrow> int"
  d1_match_prev :: "nat \<Rightarrow> int"

text \<open>\<open>if (optimals[i].bits > cost) { bits = cost; offset = ...; len = ... }\<close>.\<close>

definition d1_relax :: "d1_optimal list \<Rightarrow> nat \<Rightarrow> nat \<Rightarrow> nat \<Rightarrow> nat \<Rightarrow> d1_optimal list" where
  "d1_relax optimals i cost offset len =
     (if d1_bits (optimals ! i) > cost
      then optimals[i := \<lparr>d1_bits = cost, d1_offset = offset, d1_len = len\<rparr>]
      else optimals)"

text \<open>The RAW alternatives \<open>for (k = j; k > RLE_MIN - 1; k--)\<close>.\<close>

function d1_rle_loop :: "nat \<Rightarrow> nat \<Rightarrow> d1_optimal list \<Rightarrow> d1_optimal list" where
  "d1_rle_loop i k optimals =
     (if k > d1_RLE_MIN - 1 then
        d1_rle_loop i (k - 1)
          (d1_relax optimals i (d1_bits (optimals ! (i - k)) + (1 + 16 + 1 + 8) + k * 8) 0 k)
      else optimals)"
  by pat_completeness auto
termination
  by (relation "measure (\<lambda>(i, k, optimals). k)") auto

declare d1_rle_loop.simps [simp del]

text \<open>The match of length 1: \<open>for (k = 1; k <= limit1; k++)\<close>, left at the first equal
  byte.\<close>

function d1_len1_loop :: "byte list \<Rightarrow> nat \<Rightarrow> nat \<Rightarrow> nat \<Rightarrow> d1_optimal list \<Rightarrow> d1_optimal list" where
  "d1_len1_loop src i limit1 k optimals =
     (if k \<le> limit1 then
        (if src ! i = src ! (i - k)
         then d1_relax optimals i (d1_bits (optimals ! (i - 1)) + d1_countBits k 1) k 1
         else d1_len1_loop src i limit1 (k + 1) optimals)
      else optimals)"
  by pat_completeness auto
termination
  by (relation "measure (\<lambda>(src, i, limit1, k, optimals). Suc limit1 - k)") auto

declare d1_len1_loop.simps [simp del]

text \<open>The extension of one chain candidate: \<open>for (len = 2; len <= MAX_LEN; len++)\<close>. It
  returns \<open>len\<close> as the loop leaves it, \<open>best_len\<close> and the table.\<close>

function d1_len_loop ::
  "byte list \<Rightarrow> nat \<Rightarrow> nat \<Rightarrow> nat \<Rightarrow> nat \<Rightarrow> d1_optimal list \<Rightarrow> nat \<times> nat \<times> d1_optimal list" where
  "d1_len_loop src i offset len best_len optimals =
     (if len \<le> d1_MAX_LEN then
        (let upd = (len > best_len \<and> \<not> (len = 2 \<and> offset > d1_MAX_OFFSET3));
             best_len' = (if upd then len else best_len);
             optimals' = (if upd
                          then d1_relax optimals i
                                 (d1_bits (optimals ! (i - len)) + d1_countBits offset len) offset len
                          else optimals)
         in if i < offset + len \<or> src ! (i - len) \<noteq> src ! (i - len - offset)
            then (len, best_len', optimals')
            else d1_len_loop src i offset (len + 1) best_len' optimals')
      else (len, best_len, optimals))"
  by pat_completeness auto
termination
  by (relation "measure (\<lambda>(src, i, offset, len, best_len, optimals). Suc d1_MAX_LEN - len)") auto

declare d1_len_loop.simps [simp del]

text \<open>The fast-forward of the chain walk; it returns \<open>p\<close> and the new \<open>pos\<close>.\<close>

partial_function (option) d1_skip_loop ::
  "(nat \<Rightarrow> int) \<Rightarrow> nat \<Rightarrow> nat \<Rightarrow> nat \<Rightarrow> int \<Rightarrow> int \<Rightarrow> (int \<times> int) option" where
  "d1_skip_loop match_prev i len steps p pos =
     (if p \<noteq> -1 then
        (if int i - p > int d1_MAX_OFFSET then Some (p, pos)
         else if steps + 1 = len then Some (p, p)
         else d1_skip_loop match_prev i len (steps + 1) (match_prev (nat p)) pos)
      else Some (p, pos))"

declare d1_skip_loop.simps [code]

text \<open>The chain walk \<open>while (pos !== -1 && best_len < MAX_LEN)\<close>.\<close>

partial_function (option) d1_chain_loop ::
  "byte list \<Rightarrow> (nat \<Rightarrow> int) \<Rightarrow> nat \<Rightarrow> int \<Rightarrow> nat \<Rightarrow> d1_optimal list \<Rightarrow> d1_optimal list option" where
  "d1_chain_loop src match_prev i pos best_len optimals =
     (if pos \<noteq> -1 \<and> best_len < d1_MAX_LEN then
        (if int i - pos > int d1_MAX_OFFSET then Some optimals
         else
           (case d1_len_loop src i (nat (int i - pos)) 2 best_len optimals of
              (len, best_len', optimals') \<Rightarrow>
                if len > 6 \<and> len = best_len' - 1 \<and> match_prev (nat pos) \<noteq> -1
                   \<and> pos = match_prev (nat pos) + 1
                then
                  (case d1_skip_loop match_prev i len 1 (match_prev (nat pos)) pos of
                     None \<Rightarrow> None
                   | Some (p, pos') \<Rightarrow>
                       if p = -1 then Some optimals'
                       else d1_chain_loop src match_prev i (match_prev (nat pos')) best_len' optimals')
                else d1_chain_loop src match_prev i (match_prev (nat pos)) best_len' optimals'))
      else Some optimals)"

declare d1_chain_loop.simps [code]

text \<open>One round of the main loop, for position \<open>i\<close>.\<close>

definition d1_dp_step :: "bool \<Rightarrow> byte list \<Rightarrow> nat \<Rightarrow> d1_state \<Rightarrow> d1_state option" where
  "d1_dp_step bRLE src i st =
     (let o0 = d1_optimals st;
          o1 = o0[i := \<lparr>d1_bits = d1_bits (o0 ! (i - 1)) + 1 + 8, d1_offset = 0, d1_len = 1\<rparr>];
          o2 = (if bRLE \<and> i \<ge> d1_RLE_MIN
                then d1_rle_loop i (if d1_RLE_RANGE + d1_RLE_MIN > i then i
                                    else d1_RLE_RANGE + d1_RLE_MIN) o1
                else o1);
          limit1 = (if d1_MAX_OFFSET2 > i then i else d1_MAX_OFFSET2);
          o3 = d1_len1_loop src i limit1 1 o2;
          key = (push_bit 8 (unat (src ! (i - 1))) OR unat (src ! i)) AND 0xFFFF
      in case d1_chain_loop src (d1_match_prev st) i (d1_match_heads st key) 1 o3 of
           None \<Rightarrow> None
         | Some o4 \<Rightarrow>
             Some (st\<lparr>d1_optimals := o4,
                      d1_match_prev := (d1_match_prev st)(i := d1_match_heads st key),
                      d1_match_heads := (d1_match_heads st)(key := int i)\<rparr>))"

function d1_dp_loop :: "bool \<Rightarrow> byte list \<Rightarrow> nat \<Rightarrow> d1_state \<Rightarrow> d1_state option" where
  "d1_dp_loop bRLE src i st =
     (if i < length src then
        (case d1_dp_step bRLE src i st of
           None \<Rightarrow> None
         | Some st' \<Rightarrow> d1_dp_loop bRLE src (i + 1) st')
      else Some st)"
  by pat_completeness auto
termination
  by (relation "measure (\<lambda>(bRLE, src, i, st). length src - i)") auto

declare d1_dp_loop.simps [simp del]

text \<open>\<open>_cleanupOptimals\<close>: the inner \<open>for (j = i - 1; j > i - len; j--)\<close> and the walk
  \<open>while (i > 1) { ...; i -= len; }\<close>, which does not return if it meets \<open>len = 0\<close>.\<close>

function d1_cleanup_inner :: "d1_optimal list \<Rightarrow> nat \<Rightarrow> int \<Rightarrow> d1_optimal list" where
  "d1_cleanup_inner optimals j lo =
     (if int j > lo \<and> 0 < j then
        d1_cleanup_inner (optimals[j := (optimals ! j)\<lparr>d1_offset := 0, d1_len := 0\<rparr>]) (j - 1) lo
      else optimals)"
  by pat_completeness auto
termination
  by (relation "measure (\<lambda>(optimals, j, lo). j)") auto

declare d1_cleanup_inner.simps [simp del]

partial_function (option) d1_cleanup_loop :: "d1_optimal list \<Rightarrow> nat \<Rightarrow> d1_optimal list option" where
  "d1_cleanup_loop optimals i =
     (if i > 1 then
        (let len = d1_len (optimals ! i) in
         d1_cleanup_loop (d1_cleanup_inner optimals (i - 1) (int i - int len)) (i - len))
      else Some optimals)"

declare d1_cleanup_loop.simps [code]

text \<open>\<open>_writeLZStream\<close>: the loop over the cleaned table.\<close>

fun d1_write_bytes :: "nat \<Rightarrow> byte list \<Rightarrow> d1_writer \<Rightarrow> d1_writer" where
  "d1_write_bytes cap [] w = w"
| "d1_write_bytes cap (c # cs) w = d1_write_bytes cap cs (d1_writeByte cap (unat c) w)"

function d1_emit_loop :: "nat \<Rightarrow> byte list \<Rightarrow> d1_optimal list \<Rightarrow> nat \<Rightarrow> d1_writer \<Rightarrow> d1_writer" where
  "d1_emit_loop cap src optimals i w =
     (if i < length src then
        (let opt = optimals ! i in
         if d1_len opt \<le> 0 then d1_emit_loop cap src optimals (i + 1) w
         else
           (let start = i - d1_len opt + 1 in
            d1_emit_loop cap src optimals (i + 1)
              (if d1_offset opt = 0 then
                 (if d1_len opt = 1 then d1_writeLiteral cap (src ! start) w
                  else d1_write_bytes cap (take (d1_len opt) (drop start src))
                         (d1_writeLiteralsLength cap (d1_len opt) w))
               else d1_writeDoublet cap (d1_len opt) (d1_offset opt) w)))
      else w)"
  by pat_completeness auto
termination
  by (relation "measure (\<lambda>(cap, src, optimals, i, w). length src - i)") auto

declare d1_emit_loop.simps [simp del]

definition d1_writeLZStream :: "nat \<Rightarrow> byte list \<Rightarrow> d1_optimal list \<Rightarrow> byte list" where
  "d1_writeLZStream cap src optimals =
     d1_result cap
       (d1_writeEnd cap
          (d1_emit_loop cap src optimals 1 (d1_writeByte cap (unat (src ! 0)) d1_resetWriter)))"

text \<open>\<open>compress\<close> on an instance built with \<open>maxSize = MAX\<close>; \<open>bRLE\<close> is the flag after
  \<open>this.bRLE = options.rle ?? this.bRLE\<close>.\<close>

definition d1_initial_state :: "nat \<Rightarrow> d1_state" where
  "d1_initial_state n =
     \<lparr>d1_optimals =
        (replicate n \<lparr>d1_bits = 0x7fffffff, d1_offset = 0, d1_len = 0\<rparr>)
          [0 := \<lparr>d1_bits = 8, d1_offset = 0, d1_len = 1\<rparr>],
      d1_match_heads = (\<lambda>_. -1),
      d1_match_prev = (\<lambda>_. 0)\<rparr>"

definition dan1_compress :: "nat \<Rightarrow> bool \<Rightarrow> byte list \<Rightarrow> (error + byte list) option" where
  "dan1_compress maxSize bRLE inputData =
     (if length inputData = 0 then Some (Inr [])
      else if length inputData > maxSize then Some (Inl InputTooLarge)
      else
        (case d1_dp_loop bRLE inputData 1 (d1_initial_state (length inputData)) of
           None \<Rightarrow> None
         | Some st \<Rightarrow>
             (case d1_cleanup_loop (d1_optimals st) (length inputData - 1) of
                None \<Rightarrow> None
              | Some optimals \<Rightarrow>
                  Some (Inr (d1_writeLZStream (2 * maxSize) inputData optimals)))))"

section \<open>Pletter v0.5 (js/codecs/pletter.js)\<close>

abbreviation (input) pl_MAX_LEN :: nat where "pl_MAX_LEN \<equiv> 65536"

definition pl_maxlen :: "nat list" where
  "pl_maxlen = [128, 128 + 128, 512 + 128, 1024 + 128, 2048 + 128, 4096 + 128, 8192 + 128]"

text \<open>
  \<open>varcost[v]\<close> as \<open>initVarCost\<close> fills the table: index 0 is never written; from index 1
  on, blocks of \<open>r = 1, 2, 4, ..., 32768\<close> entries receive \<open>b = 1, 3, 5, ...\<close>, and the
  filling stops when \<open>r\<close> reaches 65536. The scan looks up the block that holds \<open>v\<close>
  (\<open>lo\<close> is the block's first index, \<open>r = 2^k\<close>); \<open>None\<close> is \<open>undefined\<close>.
\<close>

function pl_varcost_scan :: "nat \<Rightarrow> nat \<Rightarrow> nat \<Rightarrow> nat \<Rightarrow> nat option" where
  "pl_varcost_scan v lo b k =
     (if (2::nat) ^ k = 65536 then None
      else if v < lo + 2 ^ k then Some b
      else pl_varcost_scan v (lo + 2 ^ k) (b + 2) (k + 1))"
  by pat_completeness auto
termination
proof (relation "measure (\<lambda>(v, lo, b, k). v - lo)")
  show "wf (measure (\<lambda>(v, lo, b, k). v - lo))" by simp
next
  fix v lo b k :: nat
  assume "\<not> v < lo + 2 ^ k"
  moreover have "0 < (2::nat) ^ k" by simp
  ultimately have "v - (lo + 2 ^ k) < v - lo" by linarith
  then show "((v, lo + 2 ^ k, b + 2, k + 1), (v, lo, b, k)) \<in> measure (\<lambda>(v, lo, b, k). v - lo)"
    by simp
qed

declare pl_varcost_scan.simps [simp del]

definition pl_varcost :: "nat \<Rightarrow> nat option" where
  "pl_varcost v = (if v = 0 then None else pl_varcost_scan v 1 1 0)"

subsection \<open>createMetadata\<close>

text \<open>
  \<open>metadata[i]\<close> is \<open>{reeks, cpos[7], clen[7]}\<close>. The three fields are kept as three
  tables indexed by position: \<open>reeks\<close> is filled once and then only read, \<open>cpos\<close> and
  \<open>clen\<close> hold the seven entries of every position.
\<close>

record pl_metadata =
  pl_reeks :: "nat list"
  pl_cpos :: "nat list list"
  pl_clen :: "nat list list"

definition pl_key :: "byte list \<Rightarrow> nat \<Rightarrow> nat" where
  "pl_key data i =
     unat (data ! i) + (if i + 1 < length data then unat (data ! (i + 1)) * 256 else 0)"

text \<open>The chain links: \<open>prev[i] = last[index]; last[index] = i\<close> for \<open>i = 0 .. length - 1\<close>.\<close>

function pl_link_loop :: "byte list \<Rightarrow> nat \<Rightarrow> (nat \<Rightarrow> int) \<Rightarrow> int list \<Rightarrow> int list" where
  "pl_link_loop data i last' prev =
     (if i < length data then
        pl_link_loop data (i + 1) (last'(pl_key data i := int i)) (prev[i := last' (pl_key data i)])
      else prev)"
  by pat_completeness auto
termination
  by (relation "measure (\<lambda>(data, i, last', prev). length data - i)") auto

declare pl_link_loop.simps [simp del]

text \<open>The run lengths, from the last position down; \<open>n\<close> counts the positions left, and
  \<open>r = -1\<close> at the start equals no byte.\<close>

fun pl_reeks_loop :: "byte list \<Rightarrow> nat \<Rightarrow> int \<Rightarrow> nat \<Rightarrow> nat list \<Rightarrow> nat list" where
  "pl_reeks_loop data 0 r t reeks = reeks"
| "pl_reeks_loop data (Suc i) r t reeks =
     (if int (unat (data ! i)) = r
      then pl_reeks_loop data i r (t + 1) (reeks[i := t + 1])
      else pl_reeks_loop data i (int (unat (data ! i))) 1 (reeks[i := 1]))"

text \<open>The match extension, which jumps over runs of equal bytes. It does not return if
  a run length it adds is 0.\<close>

partial_function (option) pl_match_len ::
  "byte list \<Rightarrow> nat list \<Rightarrow> nat \<Rightarrow> nat \<Rightarrow> nat \<Rightarrow> nat option" where
  "pl_match_len data reeks p i l =
     (if i + l < length data \<and> data ! (p + l) = data ! (i + l) then
        (if reeks ! (i + l) > 1 then
           pl_match_len data reeks p i
             (l + (if reeks ! (i + l) > reeks ! (p + l) then reeks ! (p + l) else reeks ! (i + l)))
         else pl_match_len data reeks p i (l + 1))
      else Some l)"

declare pl_match_len.simps [code]

text \<open>The chain walk \<open>while ((p = prev[p]) !== -1)\<close> for one position and one \<open>bl\<close>; \<open>best\<close>
  is the pair \<open>(clen[bl], cpos[bl])\<close> of the position.\<close>

partial_function (option) pl_walk ::
  "byte list \<Rightarrow> nat list \<Rightarrow> int list \<Rightarrow> nat \<Rightarrow> nat \<Rightarrow> nat \<Rightarrow> nat \<times> nat \<Rightarrow> (nat \<times> nat) option" where
  "pl_walk data reeks prev maxl i p best =
     (if prev ! p = -1 then Some best
      else if int i - prev ! p > int maxl then Some best
      else
        (case pl_match_len data reeks (nat (prev ! p)) i 0 of
           None \<Rightarrow> None
         | Some l \<Rightarrow>
             pl_walk data reeks prev maxl i (nat (prev ! p))
               (if l > fst best then (l, i - nat (prev ! p)) else best)))"

declare pl_walk.simps [code]

text \<open>The body of the loop over \<open>i\<close> for one \<open>bl\<close>.\<close>

definition pl_meta_step ::
  "byte list \<Rightarrow> int list \<Rightarrow> nat \<Rightarrow> nat \<Rightarrow> pl_metadata \<Rightarrow> pl_metadata option" where
  "pl_meta_step data prev bl i md =
     (let start = (if bl \<noteq> 0 then (pl_clen md ! i ! (bl - 1), pl_cpos md ! i ! (bl - 1))
                   else (pl_clen md ! i ! bl, pl_cpos md ! i ! bl));
          p = (if bl \<noteq> 0 then i - snd start else i)
      in case pl_walk data (pl_reeks md) prev (pl_maxlen ! bl) i p start of
           None \<Rightarrow> None
         | Some (l, c) \<Rightarrow>
             Some (md\<lparr>pl_clen := (pl_clen md)[i := (pl_clen md ! i)[bl := l]],
                      pl_cpos := (pl_cpos md)[i := (pl_cpos md ! i)[bl := c]]\<rparr>))"

function pl_meta_i_loop ::
  "byte list \<Rightarrow> int list \<Rightarrow> nat \<Rightarrow> nat \<Rightarrow> pl_metadata \<Rightarrow> pl_metadata option" where
  "pl_meta_i_loop data prev bl i md =
     (if i < length data then
        (case pl_meta_step data prev bl i md of
           None \<Rightarrow> None
         | Some md' \<Rightarrow> pl_meta_i_loop data prev bl (i + 1) md')
      else Some md)"
  by pat_completeness auto
termination
  by (relation "measure (\<lambda>(data, prev, bl, i, md). length data - i)") auto

declare pl_meta_i_loop.simps [simp del]

function pl_meta_bl_loop ::
  "byte list \<Rightarrow> int list \<Rightarrow> nat \<Rightarrow> pl_metadata \<Rightarrow> pl_metadata option" where
  "pl_meta_bl_loop data prev bl md =
     (if bl < 7 then
        (case pl_meta_i_loop data prev bl 0 md of
           None \<Rightarrow> None
         | Some md' \<Rightarrow> pl_meta_bl_loop data prev (bl + 1) md')
      else Some md)"
  by pat_completeness auto
termination
  by (relation "measure (\<lambda>(data, prev, bl, md). 7 - bl)") auto

declare pl_meta_bl_loop.simps [simp del]

definition pl_createMetadata :: "byte list \<Rightarrow> pl_metadata option" where
  "pl_createMetadata data =
     (let n = length data;
          prev = pl_link_loop data 0 (\<lambda>_. -1) (replicate (n + 1) 0);
          reeks = pl_reeks_loop data n (-1) 0 (replicate (n + 1) 0)
      in pl_meta_bl_loop data prev 0
           \<lparr>pl_reeks = reeks,
            pl_cpos = replicate (n + 1) (replicate 7 0),
            pl_clen = replicate (n + 1) (replicate 7 0)\<rparr>)"

subsection \<open>getLen\<close>

record pl_pak =
  pl_cost :: nat
  pl_mode :: nat
  pl_mlen :: nat

text \<open>One of the two \<open>while (j > 1)\<close> loops of \<open>getLen\<close>: \<open>base\<close> is 9 or \<open>ccc\<close>, \<open>m\<close> the mode
  it sets, and the triple is \<open>(kc, kmode, kl)\<close>.\<close>

function pl_cost_loop ::
  "pl_pak list \<Rightarrow> nat \<Rightarrow> nat \<Rightarrow> nat \<Rightarrow> nat \<Rightarrow> nat \<times> nat \<times> nat \<Rightarrow> nat \<times> nat \<times> nat" where
  "pl_cost_loop p i base m j k =
     (if j > 1 then
        (let varcost_val = (case pl_varcost (j - 1) of Some c \<Rightarrow> c | None \<Rightarrow> 1000000);
             cc = base + varcost_val + pl_cost (p ! (i + j))
         in pl_cost_loop p i base m (j - 1) (if cc < fst k then (cc, m, j) else k))
      else k)"
  by pat_completeness auto
termination
  by (relation "measure (\<lambda>(p, i, base, m, j, k). j)") auto

declare pl_cost_loop.simps [simp del]

text \<open>The loop \<open>for (i = length - 1; i !== -1; --i)\<close>; \<open>n\<close> counts the positions left.\<close>

fun pl_getLen_loop :: "pl_metadata \<Rightarrow> nat \<Rightarrow> nat \<Rightarrow> pl_pak list \<Rightarrow> pl_pak list" where
  "pl_getLen_loop md q 0 p = p"
| "pl_getLen_loop md q (Suc i) p =
     (let k0 = (9 + pl_cost (p ! (i + 1)), 0, 0);
          k1 = pl_cost_loop p i 9 1 (pl_clen md ! i ! 0) k0;
          ccc = (if q = 1 then 9 else 9 + q);
          k2 = pl_cost_loop p i ccc 2 (pl_clen md ! i ! q) k1
      in pl_getLen_loop md q i
           (p[i := \<lparr>pl_cost = fst k2, pl_mode = fst (snd k2), pl_mlen = snd (snd k2)\<rparr>]))"

text \<open>\<open>getLen\<close> returns \<open>{cost: p[0].cost, pakdata: p}\<close>.\<close>

definition pl_getLen :: "byte list \<Rightarrow> pl_metadata \<Rightarrow> nat \<Rightarrow> nat \<times> pl_pak list" where
  "pl_getLen data md q =
     (let p = pl_getLen_loop md q (length data)
                (replicate (length data + 1) \<lparr>pl_cost = 0, pl_mode = 0, pl_mlen = 0\<rparr>)
      in (pl_cost (p ! 0), p))"

subsection \<open>The Pletter writer and save\<close>

text \<open>\<open>dataDest\<close> is a \<open>Uint8Array\<close> of 512 * 1024 bytes, read as a function of the index;
  a write at or beyond that capacity is dropped.\<close>

abbreviation (input) pl_capacity :: nat where "pl_capacity \<equiv> 512 * 1024"

record pl_writer =
  pl_dataDest :: "nat \<Rightarrow> byte"
  pl_dataPos :: nat
  pl_eventPos :: nat
  pl_pendingBits :: nat
  pl_eventByte :: nat

definition pl_store :: "(nat \<Rightarrow> byte) \<Rightarrow> nat \<Rightarrow> byte \<Rightarrow> (nat \<Rightarrow> byte)" where
  "pl_store a i v = (if i < pl_capacity then a(i := v) else a)"

definition pl_writeByte :: "int \<Rightarrow> pl_writer \<Rightarrow> pl_writer" where
  "pl_writeByte v w =
     w\<lparr>pl_dataDest := pl_store (pl_dataDest w) (pl_dataPos w) (of_int v),
       pl_dataPos := pl_dataPos w + 1\<rparr>"

definition pl_claimEvent :: "pl_writer \<Rightarrow> pl_writer" where
  "pl_claimEvent w = w\<lparr>pl_eventPos := pl_dataPos w, pl_dataPos := pl_dataPos w + 1\<rparr>"

definition pl_addEvent :: "pl_writer \<Rightarrow> pl_writer" where
  "pl_addEvent w =
     w\<lparr>pl_dataDest := pl_store (pl_dataDest w) (pl_eventPos w) (of_nat (pl_eventByte w)),
       pl_eventByte := 0, pl_pendingBits := 0\<rparr>"

definition pl_addBit :: "bool \<Rightarrow> pl_writer \<Rightarrow> pl_writer" where
  "pl_addBit b w =
     (let w1 = (if pl_pendingBits w = 0 then pl_claimEvent w else w);
          w2 = w1\<lparr>pl_eventByte := pl_eventByte w1 * 2, pl_pendingBits := pl_pendingBits w1 + 1\<rparr>;
          w3 = (if b then w2\<lparr>pl_eventByte := pl_eventByte w2 + 1\<rparr> else w2)
      in if pl_pendingBits w3 = 8 then pl_addEvent w3 else w3)"

definition pl_add3 :: "int \<Rightarrow> pl_writer \<Rightarrow> pl_writer" where
  "pl_add3 v w =
     pl_addBit (v AND 1 \<noteq> 0) (pl_addBit (v AND 2 \<noteq> 0) (pl_addBit (v AND 4 \<noteq> 0) w))"

text \<open>\<open>_addVar\<close>: first \<open>while (!(i & j)) j = floor(j / 2)\<close> from \<open>j = 32768\<close>, then the
  do-while that writes a continuation bit and a value bit per remaining position. The
  source is called with \<open>1 \<le> i < 65536\<close>, for which \<open>j\<close> never reaches 0; \<open>0 < j\<close> stands
  in the guards only because the recursion must end from every \<open>j\<close>.\<close>

function pl_addVar_top :: "nat \<Rightarrow> nat \<Rightarrow> nat" where
  "pl_addVar_top i j = (if i AND j = 0 \<and> 0 < j then pl_addVar_top i (j div 2) else j)"
  by pat_completeness auto
termination
  by (relation "measure (\<lambda>(i, j). j)") auto

declare pl_addVar_top.simps [simp del]

function pl_addVar_bits :: "nat \<Rightarrow> nat \<Rightarrow> pl_writer \<Rightarrow> pl_writer" where
  "pl_addVar_bits i j w =
     (if j = 1 \<or> j = 0 then pl_addBit False w
      else pl_addVar_bits i (j div 2)
             (pl_addBit (i AND (j div 2) \<noteq> 0) (pl_addBit True w)))"
  by pat_completeness auto
termination
  by (relation "measure (\<lambda>(i, j, w). j)") auto

declare pl_addVar_bits.simps [simp del]

definition pl_addVar :: "nat \<Rightarrow> pl_writer \<Rightarrow> pl_writer" where
  "pl_addVar i w = pl_addVar_bits i (pl_addVar_top i 32768) w"

text \<open>\<open>_done\<close>: pad the pending event byte with zero bits and store it.\<close>

function pl_pad :: "pl_writer \<Rightarrow> pl_writer" where
  "pl_pad w =
     (if pl_pendingBits w < 8
      then pl_pad (w\<lparr>pl_eventByte := pl_eventByte w * 2, pl_pendingBits := pl_pendingBits w + 1\<rparr>)
      else w)"
  by pat_completeness auto
termination
  by (relation "measure (\<lambda>w. 8 - pl_pendingBits w)") auto

declare pl_pad.simps [simp del]

definition pl_done :: "pl_writer \<Rightarrow> pl_writer" where
  "pl_done w = (if pl_pendingBits w \<noteq> 0 then pl_addEvent (pl_pad w) else w)"

text \<open>
  The offset of a match in mode 2, as \<open>save\<close> emits it: \<open>j = cpos[q] - 1 - 128\<close>, the byte
  \<open>128 | (j & 127)\<close>, then the bits the \<open>switch (q)\<close> adds, falling through from \<open>case q\<close>
  down to \<open>case 2\<close>: the masks tested, in order. \<open>None\<close> is the \<open>default\<close> branch.
\<close>

definition pl_save_masks :: "nat \<Rightarrow> int list option" where
  "pl_save_masks q =
     (if q = 6 then Some [4096, 2048, 1024, 512, 256, 128]
      else if q = 5 then Some [2048, 1024, 512, 256, 128]
      else if q = 4 then Some [1024, 512, 256, 128]
      else if q = 3 then Some [512, 256, 128]
      else if q = 2 then Some [256, 128]
      else if q = 1 then Some []
      else None)"

fun pl_addBits :: "bool list \<Rightarrow> pl_writer \<Rightarrow> pl_writer" where
  "pl_addBits [] w = w"
| "pl_addBits (b # bs) w = pl_addBits bs (pl_addBit b w)"

definition pl_offset_byte :: "int \<Rightarrow> int" where
  "pl_offset_byte j = 128 OR (j AND 127)"

definition pl_offset_bits :: "nat \<Rightarrow> int \<Rightarrow> bool list" where
  "pl_offset_bits q j = (case pl_save_masks q of None \<Rightarrow> [] | Some ms \<Rightarrow> map (\<lambda>m. j AND m \<noteq> 0) ms)"

definition pl_save_offset2 :: "nat \<Rightarrow> nat \<Rightarrow> pl_writer \<Rightarrow> pl_writer" where
  "pl_save_offset2 q cpos w =
     (let j = int cpos - 1 - 128 in
      pl_addBits (pl_offset_bits q j) (pl_writeByte (pl_offset_byte j) w))"

text \<open>The token loop of \<open>save\<close>. A mode other than 0, 1, 2 leaves \<open>i\<close> as it is, and so
  does a match of length 0: the loop then does not return.\<close>

partial_function (option) pl_save_loop ::
  "byte list \<Rightarrow> pl_metadata \<Rightarrow> pl_pak list \<Rightarrow> nat \<Rightarrow> nat \<Rightarrow> pl_writer \<Rightarrow> pl_writer option" where
  "pl_save_loop data md pakdata q i w =
     (if i < length data then
        (if pl_mode (pakdata ! i) = 0 then
           pl_save_loop data md pakdata q (i + 1)
             (pl_writeByte (uint (data ! i)) (pl_addBit False w))
         else if pl_mode (pakdata ! i) = 1 then
           pl_save_loop data md pakdata q (i + pl_mlen (pakdata ! i))
             (pl_writeByte (int (pl_cpos md ! i ! 0) - 1)
                (pl_addVar (pl_mlen (pakdata ! i) - 1) (pl_addBit True w)))
         else if pl_mode (pakdata ! i) = 2 then
           pl_save_loop data md pakdata q (i + pl_mlen (pakdata ! i))
             (pl_save_offset2 q (pl_cpos md ! i ! q)
                (pl_addVar (pl_mlen (pakdata ! i) - 1) (pl_addBit True w)))
         else pl_save_loop data md pakdata q i w)
      else Some w)"

declare pl_save_loop.simps [code]

definition pl_save ::
  "byte list \<Rightarrow> pl_metadata \<Rightarrow> pl_pak list \<Rightarrow> nat \<Rightarrow> byte list option" where
  "pl_save data md pakdata q =
     (let w0 = \<lparr>pl_dataDest = (\<lambda>_. 0), pl_dataPos = 0, pl_eventPos = 0,
                pl_pendingBits = 0, pl_eventByte = 0\<rparr>;
          w1 = pl_writeByte (uint (data ! 0)) (pl_add3 (int q - 1) w0)
      in case pl_save_loop data md pakdata q 1 w1 of
           None \<Rightarrow> None
         | Some w2 \<Rightarrow>
             (let w3 = pl_done (pl_addBits (replicate 34 True) w2) in
              Some (map (pl_dataDest w3) [0..<min (pl_dataPos w3) pl_capacity])))"

subsection \<open>Pletter compress\<close>

text \<open>The search \<open>for (i = 1; i !== 7; ++i)\<close> for the cheapest \<open>q\<close>; the pair is
  \<open>(minlen, minbl)\<close>.\<close>

function pl_q_loop :: "byte list \<Rightarrow> pl_metadata \<Rightarrow> nat \<Rightarrow> nat \<times> nat \<Rightarrow> nat \<times> nat" where
  "pl_q_loop data md i m =
     (if i < 7 then
        (let cost = fst (pl_getLen data md i) in
         pl_q_loop data md (i + 1) (if cost < fst m \<and> i \<noteq> 0 then (cost, i) else m))
      else m)"
  by pat_completeness auto
termination
  by (relation "measure (\<lambda>(data, md, i, m). 7 - i)") auto

declare pl_q_loop.simps [simp del]

definition pl_choose_q :: "byte list \<Rightarrow> pl_metadata \<Rightarrow> nat" where
  "pl_choose_q data md =
     (let minbl = snd (pl_q_loop data md 1 (length data * 1000, 0)) in
      if minbl = 0 \<and> length data > 0 then 1 else minbl)"

definition pletter_compress :: "byte list \<Rightarrow> (error + byte list) option" where
  "pletter_compress data =
     (if length data = 0 then Some (Inr [])
      else if length data > pl_MAX_LEN then Some (Inl InputTooLarge)
      else
        (case pl_createMetadata data of
           None \<Rightarrow> None
         | Some md \<Rightarrow>
             (let minbl = pl_choose_q data md in
              case pl_save data md (snd (pl_getLen data md minbl)) minbl of
                None \<Rightarrow> None
              | Some out \<Rightarrow> Some (Inr out))))"

subsection \<open>Pletter decoder: the offset\<close>

text \<open>
  The decoder's cursor: \<open>dataPosition\<close>, \<open>varPosition\<close>, \<open>bitForVarPosition\<close>. \<open>getBit\<close>
  does not check the bounds: beyond the data the byte is \<open>undefined\<close> and the bit is 0.
\<close>

record pl_reader =
  pl_dataPosition :: nat
  pl_varPosition :: nat
  pl_bitForVarPosition :: nat

definition pl_getByte :: "byte list \<Rightarrow> pl_reader \<Rightarrow> error + (byte \<times> pl_reader)" where
  "pl_getByte cd r =
     (if pl_dataPosition r \<ge> length cd then Inl TruncatedStream
      else Inr (cd ! pl_dataPosition r, r\<lparr>pl_dataPosition := pl_dataPosition r + 1\<rparr>))"

definition pl_getBit :: "byte list \<Rightarrow> pl_reader \<Rightarrow> nat \<times> pl_reader" where
  "pl_getBit cd r =
     (let r1 = (if pl_bitForVarPosition r = 7
                then r\<lparr>pl_varPosition := pl_dataPosition r,
                       pl_dataPosition := pl_dataPosition r + 1\<rparr>
                else r);
          b = drop_bit (pl_bitForVarPosition r1) (unat (u8_get cd (pl_varPosition r1))) AND 1
      in (b, r1\<lparr>pl_bitForVarPosition :=
                   (if pl_bitForVarPosition r1 = 0 then 7 else pl_bitForVarPosition r1 - 1)\<rparr>))"

text \<open>
  The \<open>switch (qValue)\<close> of the decoder, falling through from \<open>case qValue\<close> down to
  \<open>case 2\<close>: the shifts of the bits it reads, in order; \<open>None\<close> is the \<open>default\<close> branch,
  which throws.
\<close>

definition pl_read_shifts :: "nat \<Rightarrow> nat list option" where
  "pl_read_shifts qValue =
     (if qValue = 7 then Some [13, 12, 11, 10, 9, 8, 7]
      else if qValue = 6 then Some [12, 11, 10, 9, 8, 7]
      else if qValue = 5 then Some [11, 10, 9, 8, 7]
      else if qValue = 4 then Some [10, 9, 8, 7]
      else if qValue = 3 then Some [9, 8, 7]
      else if qValue = 2 then Some [8, 7]
      else if qValue = 1 then Some []
      else None)"

text \<open>\<open>offset |= getBit() << s\<close> for each shift in turn.\<close>

fun pl_read_bits :: "byte list \<Rightarrow> nat list \<Rightarrow> nat \<Rightarrow> pl_reader \<Rightarrow> nat \<times> pl_reader" where
  "pl_read_bits cd [] offset r = (offset, r)"
| "pl_read_bits cd (s # ss) offset r =
     (case pl_getBit cd r of (b, r') \<Rightarrow> pl_read_bits cd ss (offset OR push_bit s b) r')"

text \<open>The offset of a match as \<open>decompress\<close> reads it, from \<open>let offset = getByte()\<close> to
  \<open>offset += 1\<close>.\<close>

definition pl_read_offset :: "byte list \<Rightarrow> nat \<Rightarrow> pl_reader \<Rightarrow> error + (nat \<times> pl_reader)" where
  "pl_read_offset cd qValue r =
     (case pl_getByte cd r of
        Inl e \<Rightarrow> Inl e
      | Inr (first, r1) \<Rightarrow>
          if first AND 0x80 \<noteq> 0 then
            (case pl_read_shifts qValue of
               None \<Rightarrow> Inl InvalidQValue
             | Some shifts \<Rightarrow>
                 (case pl_read_bits cd shifts (unat (first AND 0x7F)) r1 of
                    (offset, r2) \<Rightarrow> Inr (offset + 128 + 1, r2)))
          else Inr (unat first + 1, r1))"

section \<open>Results\<close>

subsection \<open>MDK-RLE on a constant run\<close>

lemma run_length_replicate:
  "i + r \<le> n \<Longrightarrow> i < n \<Longrightarrow> run_length (replicate n v) i r = n - i"
proof (induction "n - (i + r)" arbitrary: r)
  case 0
  then show ?case by (subst run_length.simps) simp
next
  case (Suc k)
  then have "run_length (replicate n v) i (r + 1) = n - i" by simp
  with Suc.prems Suc.hyps(2) show ?case by (subst run_length.simps) simp
qed

lemma mdk_compress_run300:
  "mdk_compress (replicate 300 0x55) = [0xFE, 0x55, 0xFE, 0x55, 0xAD, 0x55, 0xFF]"
proof -
  have rl: "run_length (replicate 300 (0x55::byte)) 0 (Suc 0) = 300"
    using run_length_replicate [of 0 1 300 "0x55"] by simp
  have rle: "rle_loop (0x55::byte) 300 [] = [0xFE, 0x55, 0xFE, 0x55, 0xAD, 0x55]"
    by (simp add: rle_loop.simps)
  have step: "mdk_loop (replicate 300 (0x55::byte)) 0 [] []
      = mdk_loop (replicate 300 0x55) 300 [0xFE, 0x55, 0xFE, 0x55, 0xAD, 0x55] []"
    by (subst mdk_loop.simps) (simp add: rl flushRaw_def rle)
  have stop: "mdk_loop (replicate 300 (0x55::byte)) 300 [0xFE, 0x55, 0xFE, 0x55, 0xAD, 0x55] []
      = ([0xFE, 0x55, 0xFE, 0x55, 0xAD, 0x55], [])"
    by (subst mdk_loop.simps) simp
  have "mdk_loop (replicate 300 (0x55::byte)) 0 [] [] = ([0xFE, 0x55, 0xFE, 0x55, 0xAD, 0x55], [])"
    by (simp only: step stop)
  then show ?thesis by (simp add: mdk_compress_def flushRaw_def)
qed

lemma mdk_decompress_run300:
  "mdk_decompress [0xFE, 0x55, 0xFE, 0x55, 0xAD, 0x55, 0xFF] = Inr (replicate 300 0x55)"
proof -
  have "replicate 127 (0x55::byte) @ replicate 127 0x55 @ replicate 46 0x55 = replicate 300 0x55"
    by (simp add: replicate_add [symmetric])
  then show ?thesis
    by (simp add: mdk_decompress_def mdk_dec_loop.simps)
qed

text \<open>
  Claim C8, as amended. Compressing 300 bytes \<open>0x55\<close> with MDK-RLE emits three RLE
  packets, with control bytes \<open>0xFE\<close>, \<open>0xFE\<close> and \<open>0xAD\<close>, that is runs of 127, 127
  and 46; each packet takes two bytes, so the packets take 6 bytes, followed by the
  end marker \<open>0xFF\<close>; and the result decompresses to the input.
\<close>

theorem mdk_run300_packets:
  "mdk_compress (replicate 300 0x55) = [0xFE, 0x55, 0xFE, 0x55, 0xAD, 0x55] @ [0xFF]
   \<and> unat ((0xFE :: byte) AND 0x7F) + 1 = 127
   \<and> unat ((0xAD :: byte) AND 0x7F) + 1 = 46
   \<and> length (mdk_compress (replicate 300 0x55)) = 6 + 1
   \<and> mdk_decompress (mdk_compress (replicate 300 0x55)) = Inr (replicate 300 0x55)"
  by (simp add: mdk_compress_run300 mdk_decompress_run300)

text \<open>
  Claim C8 as stated gives the packets 9 bytes before the end marker, 10 bytes in all;
  the output has 7.
\<close>

theorem mdk_run300_size_counterexample:
  "length (mdk_compress (replicate 300 0x55)) \<noteq> 9 + 1"
  by (simp add: mdk_compress_run300)

subsection \<open>BitBuster: the decoder's output length\<close>

lemma length_bb_copy: "length (bb_copy out i ref k len) = length out"
  by (induction out i ref k len rule: bb_copy.induct)
     (subst bb_copy.simps, simp)

lemma bb_match_length:
  "bb_match out i distance len = Inr (i', out') \<Longrightarrow> length out' = length out"
  by (auto simp: bb_match_def length_bb_copy split: if_splits)

lemma bb_readBit_append:
  "bb_readBit bytes r = Inr x \<Longrightarrow> bb_readBit (bytes @ extra) r = Inr x"
  by (auto simp: bb_readBit_def Let_def nth_append split: if_splits)

lemma bb_readByte_append:
  "bb_readByte bytes r = Inr x \<Longrightarrow> bb_readByte (bytes @ extra) r = Inr x"
  by (auto simp: bb_readByte_def nth_append split: if_splits)

lemma bb_gamma_ones_append:
  "bb_gamma_ones bytes r k = Inr x \<Longrightarrow> bb_gamma_ones (bytes @ extra) r k = Inr x"
proof (induction bytes r k rule: bb_gamma_ones.induct)
  case (1 bytes r k)
  from "1.prems" obtain b r' where rb: "bb_readBit bytes r = Inr (b, r')"
    by (subst (asm) bb_gamma_ones.simps) (auto split: sum.splits)
  have rb': "bb_readBit (bytes @ extra) r = Inr (b, r')"
    by (rule bb_readBit_append [OF rb])
  show ?case
  proof (cases "b = 1 \<and> k + 1 \<noteq> 16")
    case True
    with "1.prems" rb have "bb_gamma_ones bytes r' (k + 1) = Inr x"
      by (subst (asm) bb_gamma_ones.simps) simp
    with True rb have "bb_gamma_ones (bytes @ extra) r' (k + 1) = Inr x"
      by (intro "1.IH") auto
    with True rb' show ?thesis by (subst bb_gamma_ones.simps) simp
  next
    case False
    with "1.prems" rb rb' show ?thesis
      by (subst bb_gamma_ones.simps, subst (asm) bb_gamma_ones.simps) auto
  qed
qed

lemma bb_gamma_bits_append:
  "bb_gamma_bits bytes r n v = Inr x \<Longrightarrow> bb_gamma_bits (bytes @ extra) r n v = Inr x"
proof (induction n arbitrary: r v)
  case 0
  then show ?case by simp
next
  case (Suc n)
  from Suc.prems obtain b r' where rb: "bb_readBit bytes r = Inr (b, r')"
    by (auto split: sum.splits)
  with Suc.prems have "bb_gamma_bits bytes r' n (push_bit 1 v OR b) = Inr x" by simp
  then have "bb_gamma_bits (bytes @ extra) r' n (push_bit 1 v OR b) = Inr x" by (rule Suc.IH)
  with bb_readBit_append [OF rb, of extra] show ?case by simp
qed

lemma bb_readGammaEx_append:
  assumes "bb_readGammaEx bytes r = Inr x"
  shows "bb_readGammaEx (bytes @ extra) r = Inr x"
proof -
  from assms obtain k r1 where go: "bb_gamma_ones bytes r 0 = Inr (k, r1)"
    by (auto simp: bb_readGammaEx_def split: sum.splits)
  note go' = bb_gamma_ones_append [OF go, of extra]
  show ?thesis
  proof (cases "k = 16")
    case True
    with assms go go' show ?thesis by (simp add: bb_readGammaEx_def)
  next
    case False
    with assms go obtain val r2 where gb: "bb_gamma_bits bytes r1 k 1 = Inr (val, r2)"
      by (auto simp: bb_readGammaEx_def split: sum.splits)
    note gb' = bb_gamma_bits_append [OF gb, of extra]
    from False assms go go' gb gb' show ?thesis by (simp add: bb_readGammaEx_def)
  qed
qed

lemma bb_readHi_append:
  "bb_readHi bytes r = Inr x \<Longrightarrow> bb_readHi (bytes @ extra) r = Inr x"
  unfolding bb_readHi_def by (rule bb_gamma_bits_append)


lemma bb_dec_loop_append:
  "bb_dec_loop bytes outLen r i out = Inr res \<Longrightarrow>
   length res = length out \<and> bb_dec_loop (bytes @ extra) outLen r i out = Inr res"
proof (induction bytes outLen r i out rule: bb_dec_loop.induct)
  case (1 bytes outLen r i out)
  note eq = "1.prems" [unfolded bb_dec_loop.simps [of bytes outLen r i out]]
  note unf = bb_dec_loop.simps [of "bytes @ extra" outLen r i out]
  show ?case
  proof (cases "i < outLen")
    case False
    with eq show ?thesis by (subst unf) simp
  next
    case lt: True
    from eq lt obtain tag r1 where rb: "bb_readBit bytes r = Inr (tag, r1)"
      by (auto split: sum.splits)
    note rb' = bb_readBit_append [OF rb, of extra]
    from eq lt rb obtain b0 r2 where ry: "bb_readByte bytes r1 = Inr (b0, r2)"
      by (auto split: sum.splits if_splits)
    note ry' = bb_readByte_append [OF ry, of extra]
    show ?thesis
    proof (cases "tag = 0")
      case t0: True
      from eq lt rb ry t0 have rec: "bb_dec_loop bytes outLen r2 (i + 1) (out[i := b0]) = Inr res"
        by simp
      from "1.IH"(1) [OF lt rb refl t0 ry refl rec] lt rb' ry' t0
      show ?thesis by (subst unf) simp
    next
      case t1: False
      show ?thesis
      proof (cases "b0 = 0")
        case z: True
        from eq lt rb ry t1 z obtain v k r3 where g: "bb_readGammaEx bytes r2 = Inr ((v, k), r3)"
          by (auto split: sum.splits)
        note g' = bb_readGammaEx_append [OF g, of extra]
        show ?thesis
        proof (cases "k = 16")
          case True
          with eq lt rb ry t1 z g lt rb' ry' g' show ?thesis by (subst unf) simp
        next
          case k: False
          from eq lt rb ry t1 z g k obtain i' out' where
            m: "bb_match out i 1 (v + 2) = Inr (i', out')"
            by (auto split: sum.splits)
          from eq lt rb ry t1 z g k m have rec: "bb_dec_loop bytes outLen r3 i' out' = Inr res"
            by simp
          from "1.IH"(2) [OF lt rb refl t1 ry refl z g refl refl k m refl rec]
            bb_match_length [OF m] lt rb' ry' t1 z g' k m
          show ?thesis by (subst unf) simp
        qed
      next
        case nz: False
        show ?thesis
        proof (cases "b0 AND 0x80 = 0")
          case small: True
          from eq lt rb ry t1 nz small obtain v k r3 where
            g: "bb_readGammaEx bytes r2 = Inr ((v, k), r3)"
            by (auto split: sum.splits)
          note g' = bb_readGammaEx_append [OF g, of extra]
          from eq lt rb ry t1 nz small g obtain i' out' where
            m: "bb_match out i (unat (b0 AND 0x7F) + 1) (v + 2) = Inr (i', out')"
            by (auto split: sum.splits)
          from eq lt rb ry t1 nz small g m
          have rec: "bb_dec_loop bytes outLen r3 i' out' = Inr res"
            by simp
          from "1.IH"(3) [OF lt rb refl t1 ry refl nz small g refl refl m refl rec]
            bb_match_length [OF m] lt rb' ry' t1 nz small g' m
          show ?thesis by (subst unf) simp
        next
          case ext: False
          from eq lt rb ry t1 nz ext obtain hi r3 where h: "bb_readHi bytes r2 = Inr (hi, r3)"
            by (auto split: sum.splits)
          note h' = bb_readHi_append [OF h, of extra]
          from eq lt rb ry t1 nz ext h obtain v k r4 where
            g: "bb_readGammaEx bytes r3 = Inr ((v, k), r4)"
            by (auto split: sum.splits)
          note g' = bb_readGammaEx_append [OF g, of extra]
          from eq lt rb ry t1 nz ext h g obtain i' out' where
            m: "bb_match out i ((unat (b0 AND 0x7F) OR push_bit 7 hi) + 1) (v + 2) = Inr (i', out')"
            by (auto split: sum.splits)
          from eq lt rb ry t1 nz ext h g m
          have rec: "bb_dec_loop bytes outLen r4 i' out' = Inr res"
            by simp
          from "1.IH"(4) [OF lt rb refl t1 ry refl nz ext h refl g refl refl m refl rec]
            bb_match_length [OF m] lt rb' ry' t1 nz ext h' g' m
          show ?thesis by (subst unf) simp
        qed
      qed
    qed
  qed
qed


lemma bb_header_length_append:
  "4 \<le> length bytes \<Longrightarrow> bb_header_length (bytes @ extra) = bb_header_length bytes"
  by (auto simp: bb_header_length_def nth_append)

text \<open>
  Claim C10. Whenever \<open>BitBusterV12Codec.decompress\<close> returns, its output has exactly
  the length stored little-endian in the four header bytes; bytes that follow the input
  are never looked at, so the same output comes back with anything appended; and the
  decode loop returns its buffer untouched, reading nothing, as soon as the output
  index has reached that length (the EOF sentinel is not needed for it to stop).
\<close>

theorem bb_decompress_length:
  assumes "bb_decompress bytes = Inr out"
  shows "length out = bb_header_length bytes
         \<and> bb_decompress (bytes @ extra) = Inr out
         \<and> (\<forall>r i buf. bb_header_length bytes \<le> i \<longrightarrow>
               bb_dec_loop bytes (bb_header_length bytes) r i buf = Inr buf)"
proof -
  from assms have len4: "4 \<le> length bytes"
    by (auto simp: bb_decompress_def split: if_splits)
  with assms have run:
    "bb_dec_loop bytes (bb_header_length bytes) \<lparr>bb_pos = 4, bb_bitMask = 0, bb_bitByte = 0\<rparr> 0
       (replicate (bb_header_length bytes) 0) = Inr out"
    by (simp add: bb_decompress_def Let_def)
  note both = bb_dec_loop_append [OF run, of extra]
  from both have "length out = bb_header_length bytes" by simp
  moreover from both len4 have "bb_decompress (bytes @ extra) = Inr out"
    by (simp add: bb_decompress_def Let_def bb_header_length_append)
  moreover have "\<forall>r i buf. bb_header_length bytes \<le> i \<longrightarrow>
               bb_dec_loop bytes (bb_header_length bytes) r i buf = Inr buf"
    by (auto simp: bb_dec_loop.simps)
  ultimately show ?thesis by blast
qed

lemma bb_decompress_example:
  "bb_decompress [3, 0, 0, 0, 0x40, 0x41, 0x00] = Inr [0x41, 0x41, 0x41]"
proof -
  have hl: "bb_header_length [3, 0, 0, 0, 0x40, 0x41, 0x00] = 3"
    by (simp add: bb_header_length_def)
  have rep: "replicate 3 (0::byte) = [0, 0, 0]"
    by (simp add: numeral_3_eq_3)
  show ?thesis
    by (simp add: bb_decompress_def hl rep bb_dec_loop.simps bb_readBit_def
        bb_readByte_def bb_readGammaEx_def bb_gamma_ones.simps bb_match_def bb_copy.simps
        u8_get_def Let_def)
qed

theorem bb_decompress_length_witness:
  "bb_decompress [3, 0, 0, 0, 0x40, 0x41, 0x00] = Inr [0x41, 0x41, 0x41]
   \<and> length [0x41, 0x41, 0x41 :: byte] = bb_header_length [3, 0, 0, 0, 0x40, 0x41, 0x00]
   \<and> bb_decompress ([3, 0, 0, 0, 0x40, 0x41, 0x00] @ [0xAA, 0xBB]) = Inr [0x41, 0x41, 0x41]
   \<and> bb_header_length [3, 0, 0, 0, 0x40, 0x41, 0x00] \<le> 3
   \<and> bb_dec_loop [3, 0, 0, 0, 0x40, 0x41, 0x00] (bb_header_length [3, 0, 0, 0, 0x40, 0x41, 0x00])
         \<lparr>bb_pos = 7, bb_bitMask = 0x10, bb_bitByte = 0x40\<rparr> 3 [0x41, 0x41, 0x41]
       = Inr [0x41, 0x41, 0x41]"
proof -
  have le: "bb_header_length [3, 0, 0, 0, 0x40, 0x41, 0x00] \<le> 3"
    by (simp add: bb_header_length_def)
  from bb_decompress_length [OF bb_decompress_example, of "[0xAA, 0xBB]"] le
  show ?thesis by (simp add: bb_decompress_example)
qed

subsection \<open>LZF: the end marker\<close>

lemma enat_not_less_finite: "\<not> enat c < x \<Longrightarrow> x \<noteq> \<infinity>"
  by (cases x) auto

lemma lzf_relax_inv:
  assumes "lzf_inv n st" "0 < k" "k \<le> n" "lzf_op_ok k opn" "cost \<noteq> \<infinity>"
  shows "lzf_inv n (lzf_relax st k cost opn)"
  using assms
  by (cases st) (auto simp: lzf_inv_def lzf_relax_def nth_list_update)

lemma lzf_relax_finite:
  assumes "fst st ! j \<noteq> \<infinity>" "cost \<noteq> \<infinity>"
  shows "fst (lzf_relax st k cost opn) ! j \<noteq> \<infinity>"
proof (cases st)
  case (Pair dp path)
  show ?thesis
  proof (cases "k < length dp")
    case True
    with assms Pair show ?thesis
      by (auto simp: lzf_relax_def nth_list_update)
  next
    case False
    with assms Pair show ?thesis
      by (auto simp: lzf_relax_def list_update_beyond)
  qed
qed

lemma lzf_relax_target:
  assumes "cost \<noteq> \<infinity>" "k < length (fst st)"
  shows "fst (lzf_relax st k cost opn) ! k \<noteq> \<infinity>"
proof (cases st)
  case (Pair dp path)
  from assms(1) obtain c where c: "cost = enat c" by auto
  show ?thesis
  proof (cases "cost < dp ! k")
    case True
    with Pair assms c show ?thesis by (simp add: lzf_relax_def)
  next
    case False
    with c have "dp ! k \<noteq> \<infinity>" by (intro enat_not_less_finite [of c]) simp
    with False Pair show ?thesis by (simp add: lzf_relax_def)
  qed
qed

lemma lzf_relax_length:
  "length (fst (lzf_relax st k cost opn)) = length (fst st)"
  by (cases st) (auto simp: lzf_relax_def)

lemma lzf_lit_loop_inv:
  assumes "lzf_inv n st" "fst st ! i \<noteq> \<infinity>" "0 < len"
  shows "lzf_inv n (lzf_lit_loop n i len st)
         \<and> (\<forall>j. fst st ! j \<noteq> \<infinity> \<longrightarrow> fst (lzf_lit_loop n i len st) ! j \<noteq> \<infinity>)"
  using assms
proof (induction n i len st rule: lzf_lit_loop.induct)
  case (1 n i len st)
  show ?case
  proof (cases "len \<le> 32 \<and> i + len \<le> n")
    case False
    then have "lzf_lit_loop n i len st = st" by (subst lzf_lit_loop.simps) auto
    with "1.prems" show ?thesis by simp
  next
    case True
    let ?st' = "lzf_relax st (i + len) (fst st ! i + enat (literalCost len)) (Literal len i)"
    have unf: "lzf_lit_loop n i len st = lzf_lit_loop n i (len + 1) ?st'"
      using True by (subst lzf_lit_loop.simps) simp
    have fin: "fst st ! i + enat (literalCost len) \<noteq> \<infinity>"
      using "1.prems"(2) by auto
    have inv': "lzf_inv n ?st'"
      using "1.prems" True by (intro lzf_relax_inv fin) (auto simp: lzf_op_ok_def)
    have keep: "\<And>j. fst st ! j \<noteq> \<infinity> \<Longrightarrow> fst ?st' ! j \<noteq> \<infinity>"
      using fin by (rule lzf_relax_finite [rotated])
    have "lzf_inv n (lzf_lit_loop n i (len + 1) ?st')
         \<and> (\<forall>j. fst ?st' ! j \<noteq> \<infinity> \<longrightarrow> fst (lzf_lit_loop n i (len + 1) ?st') ! j \<noteq> \<infinity>)"
      using True inv' keep [OF "1.prems"(2)] by (intro "1.IH") auto
    with keep show ?thesis unfolding unf by blast
  qed
qed


lemma lzf_lit_loop_first:
  assumes "lzf_inv n st" "fst st ! i \<noteq> \<infinity>" "i < n"
  shows "fst (lzf_lit_loop n i 1 st) ! (i + 1) \<noteq> \<infinity>"
proof -
  let ?st' = "lzf_relax st (i + 1) (fst st ! i + enat (literalCost 1)) (Literal 1 i)"
  have unf: "lzf_lit_loop n i 1 st = lzf_lit_loop n i (1 + 1) ?st'"
    using assms(3) by (subst lzf_lit_loop.simps) simp
  have fin: "fst st ! i + enat (literalCost 1) \<noteq> \<infinity>"
    using assms(2) by auto
  have inv': "lzf_inv n ?st'"
    using assms by (intro lzf_relax_inv fin) (auto simp: lzf_op_ok_def)
  have len: "i + 1 < length (fst st)"
    using assms by (simp add: lzf_inv_def)
  have tgt: "fst ?st' ! (i + 1) \<noteq> \<infinity>"
    using fin len by (rule lzf_relax_target)
  have src: "fst ?st' ! i \<noteq> \<infinity>"
    using assms(2) fin by (rule lzf_relax_finite)
  from lzf_lit_loop_inv [OF inv' src, of "1 + 1"] tgt
  show ?thesis unfolding unf by simp
qed

lemma lzf_match_len_bounds:
  assumes "len \<le> 256" "i + len \<le> length input"
  shows "len \<le> lzf_match_len input p i len \<and> lzf_match_len input p i len \<le> 256
         \<and> i + lzf_match_len input p i len \<le> length input"
  using assms
proof (induction input p i len rule: lzf_match_len.induct)
  case (1 input p i len)
  show ?case
  proof (cases "i + len < length input \<and> input ! (p + len) = input ! (i + len) \<and> len < 256")
    case True
    then have unf: "lzf_match_len input p i len = lzf_match_len input p i (len + 1)"
      by (subst lzf_match_len.simps) simp
    from True have "len + 1 \<le> lzf_match_len input p i (len + 1)
       \<and> lzf_match_len input p i (len + 1) \<le> 256
       \<and> i + lzf_match_len input p i (len + 1) \<le> length input"
      by (intro "1.IH") auto
    then show ?thesis unfolding unf by simp
  next
    case False
    then have "lzf_match_len input p i len = len"
      by (subst lzf_match_len.simps) auto
    with "1.prems" show ?thesis by simp
  qed
qed

lemma lzf_match_loop_inv:
  assumes "lzf_inv (length input) st" "fst st ! i \<noteq> \<infinity>" "i \<le> length input" "i \<le> p + 7936"
  shows "lzf_inv (length input) (lzf_match_loop input i p st)
         \<and> (\<forall>j. fst st ! j \<noteq> \<infinity> \<longrightarrow> fst (lzf_match_loop input i p st) ! j \<noteq> \<infinity>)"
  using assms
proof (induction input i p st rule: lzf_match_loop.induct)
  case (1 input i p st)
  show ?case
  proof (cases "p < i")
    case False
    then have "lzf_match_loop input i p st = st" by (subst lzf_match_loop.simps) auto
    with "1.prems" show ?thesis by simp
  next
    case True
    define len where "len = lzf_match_len input p i 0"
    define st' where "st' = (if len \<ge> 3
            then lzf_relax st (i + len) (fst st ! i + enat (matchCost len)) (Match len (i - p) i)
            else st)"
    have unf: "lzf_match_loop input i p st = lzf_match_loop input i (p + 1) st'"
      using True by (subst lzf_match_loop.simps) (simp add: len_def st'_def Let_def)
    from lzf_match_len_bounds [of 0 i input p] "1.prems"(3)
    have lb: "len \<le> 256" "i + len \<le> length input" by (simp_all add: len_def)
    have fin: "fst st ! i + enat (matchCost len) \<noteq> \<infinity>"
      using "1.prems"(2) by auto
    have inv': "lzf_inv (length input) st'"
    proof (cases "len \<ge> 3")
      case True
      with lb \<open>p < i\<close> "1.prems"(4) have "lzf_op_ok (i + len) (Match len (i - p) i)"
        by (auto simp: lzf_op_ok_def)
      with True lb "1.prems"(1) fin show ?thesis
        unfolding st'_def by (simp add: lzf_relax_inv)
    next
      case False
      with "1.prems"(1) show ?thesis by (simp add: st'_def)
    qed
    have keep: "fst st' ! j \<noteq> \<infinity>" if "fst st ! j \<noteq> \<infinity>" for j
    proof (cases "len \<ge> 3")
      case True
      from lzf_relax_finite [OF that fin] True show ?thesis
        unfolding st'_def by simp
    next
      case False
      with that show ?thesis unfolding st'_def by simp
    qed
    have "lzf_inv (length input) (lzf_match_loop input i (p + 1) st')
         \<and> (\<forall>j. fst st' ! j \<noteq> \<infinity> \<longrightarrow> fst (lzf_match_loop input i (p + 1) st') ! j \<noteq> \<infinity>)"
      using True inv' keep [OF "1.prems"(2)] "1.prems"(3,4)
      by (intro "1.IH" [OF True len_def, folded st'_def]) auto
    with keep show ?thesis unfolding unf by blast
  qed
qed


lemma lzf_dp_loop_inv:
  assumes "lzf_inv (length input) st" "\<forall>k\<le>i. fst st ! k \<noteq> \<infinity>" "i \<le> length input"
  shows "lzf_inv (length input) (lzf_dp_loop input i st)
         \<and> (\<forall>k\<le>length input. fst (lzf_dp_loop input i st) ! k \<noteq> \<infinity>)"
  using assms
proof (induction input i st rule: lzf_dp_loop.induct)
  case (1 input i st)
  show ?case
  proof (cases "i < length input")
    case False
    then have "lzf_dp_loop input i st = st" by (subst lzf_dp_loop.simps) auto
    with "1.prems" False show ?thesis by simp
  next
    case True
    from "1.prems"(2) have fi: "fst st ! i \<noteq> \<infinity>" by blast
    define st1 where "st1 = lzf_lit_loop (length input) i 1 st"
    define searchStart where "searchStart = i - 7936"
    define st2 where "st2 = lzf_match_loop input i searchStart st1"
    have unf: "lzf_dp_loop input i st = lzf_dp_loop input (i + 1) st2"
      using True fi by (subst lzf_dp_loop.simps) (auto simp: st1_def st2_def searchStart_def Let_def)
    from lzf_lit_loop_inv [OF "1.prems"(1) fi zero_less_one]
    have inv1: "lzf_inv (length input) st1"
      and keep1: "\<And>j. fst st ! j \<noteq> \<infinity> \<Longrightarrow> fst st1 ! j \<noteq> \<infinity>"
      unfolding st1_def by blast+
    from lzf_lit_loop_first [OF "1.prems"(1) fi True]
    have next1: "fst st1 ! (i + 1) \<noteq> \<infinity>" unfolding st1_def .
    have "i \<le> searchStart + 7936" by (simp add: searchStart_def)
    from lzf_match_loop_inv [OF inv1 keep1 [OF fi] "1.prems"(3) this]
    have inv2: "lzf_inv (length input) st2"
      and keep2: "\<And>j. fst st1 ! j \<noteq> \<infinity> \<Longrightarrow> fst st2 ! j \<noteq> \<infinity>"
      unfolding st2_def by blast+
    have all: "\<forall>k\<le>i + 1. fst st2 ! k \<noteq> \<infinity>"
    proof (intro allI impI)
      fix k assume "k \<le> i + 1"
      then consider "k \<le> i" | "k = i + 1" by linarith
      then show "fst st2 ! k \<noteq> \<infinity>"
      proof cases
        case 1
        with "1.prems"(2) have "fst st ! k \<noteq> \<infinity>" by blast
        then show ?thesis by (intro keep2 keep1)
      next
        case 2
        with next1 show ?thesis by (simp add: keep2)
      qed
    qed
    have "lzf_inv (length input) (lzf_dp_loop input (i + 1) st2)
         \<and> (\<forall>k\<le>length input. fst (lzf_dp_loop input (i + 1) st2) ! k \<noteq> \<infinity>)"
      using inv2 all True
      by (intro "1.IH"(2) [OF True fi st1_def searchStart_def st2_def]) auto
    then show ?thesis unfolding unf .
  qed
qed

lemma lzf_op_ok_from: "lzf_op_ok k opn \<Longrightarrow> op_from opn < k"
  by (cases opn) (auto simp: lzf_op_ok_def)

lemma lzf_reconstruct_ok:
  assumes "lzf_inv n st" "\<forall>k\<le>n. fst st ! k \<noteq> \<infinity>"
  shows "pos \<le> n \<Longrightarrow> \<forall>opn\<in>set operations. \<exists>k. lzf_op_ok k opn \<Longrightarrow>
         \<exists>ops'. lzf_reconstruct (snd st) pos operations = Some (Inr ops')
                \<and> (\<forall>opn\<in>set ops'. \<exists>k. lzf_op_ok k opn)"
proof (induction pos arbitrary: operations rule: less_induct)
  case (less pos)
  show ?case
  proof (cases "pos > 0")
    case False
    with less.prems show ?thesis by (subst lzf_reconstruct.simps) simp
  next
    case True
    with assms less.prems(1) have "fst st ! pos \<noteq> \<infinity>" by blast
    with assms(1) True less.prems(1) obtain opn where
      opn: "snd st ! pos = Some opn" "lzf_op_ok pos opn"
      unfolding lzf_inv_def by (metis not_None_eq)
    from opn(2) have lt: "op_from opn < pos" by (rule lzf_op_ok_from)
    have unf: "lzf_reconstruct (snd st) pos operations
        = lzf_reconstruct (snd st) (op_from opn) (opn # operations)"
      using True opn(1) by (subst lzf_reconstruct.simps) simp
    from less.prems(2) opn(2)
    have "\<forall>o'\<in>set (opn # operations). \<exists>k. lzf_op_ok k o'" by auto
    with lt less.prems(1) show ?thesis
      unfolding unf by (intro less.IH) auto
  qed
qed

lemma nat_and_le_right: "(a::nat) AND b \<le> b"
proof -
  have "int a AND int b \<le> int b" by simp
  then have "nat (int a AND int b) \<le> nat (int b)" by (rule nat_mono)
  then show ?thesis by (simp add: and_nat_def)
qed

lemma nat_or_le_plus: "(a::nat) OR b \<le> a + b"
proof -
  have "(int a AND int b) + (int a OR int b) = int a + int b" by (rule plus_and_or)
  moreover have "0 \<le> int a AND int b" by simp
  ultimately have "int a OR int b \<le> int a + int b" by linarith
  then show ?thesis by (simp add: or_nat_def)
qed

lemma byte_of_nat_neq_FF: "v < 255 \<Longrightarrow> (of_nat v :: byte) \<noteq> 0xFF"
proof
  assume v: "v < 255" and eq: "(of_nat v :: byte) = 0xFF"
  from eq have "unat (of_nat v :: byte) = unat (0xFF :: byte)" by simp
  with v show False by (simp add: unat_of_nat)
qed

lemma lzf_emit_op_head:
  assumes "lzf_op_ok k opn"
  shows "lzf_emit_op input opn \<noteq> [] \<and> hd (lzf_emit_op input opn) \<noteq> 0xFF"
proof (cases opn)
  case (Literal len frm)
  with assms have "len - 1 < 255" by (auto simp: lzf_op_ok_def)
  then have "(of_nat (len - 1) :: byte) \<noteq> 0xFF" by (rule byte_of_nat_neq_FF)
  with Literal show ?thesis by (simp add: lzf_emit_op_def)
next
  case (Match len offset frm)
  with assms have b: "3 \<le> len" "len \<le> 256" "1 \<le> offset" "offset \<le> 7936"
    by (simp_all add: lzf_op_ok_def)
  define hi where "hi = drop_bit 8 (offset - 1) AND (0x1F::nat)"
  have hi31: "hi \<le> 31" unfolding hi_def by (rule nat_and_le_right)
  have "drop_bit 8 (offset - 1) \<le> 30" using b by (simp add: drop_bit_eq_div)
  moreover have "hi \<le> drop_bit 8 (offset - 1)"
    unfolding hi_def by (subst and.commute) (rule nat_and_le_right)
  ultimately have hi30: "hi \<le> 30" by simp
  show ?thesis
  proof (cases "len \<le> 8")
    case True
    have "push_bit 5 (len - 2) OR hi \<le> push_bit 5 (len - 2) + hi" by (rule nat_or_le_plus)
    also have "\<dots> \<le> 6 * 32 + 31" using True hi31 by (simp add: push_bit_eq_mult)
    finally have "push_bit 5 (len - 2) OR hi < 255" by simp
    then have "(of_nat (push_bit 5 (len - 2) OR hi) :: byte) \<noteq> 0xFF" by (rule byte_of_nat_neq_FF)
    with Match True show ?thesis by (simp add: lzf_emit_op_def Let_def hi_def)
  next
    case False
    have "0xE0 OR hi \<le> 0xE0 + hi" by (rule nat_or_le_plus)
    with hi30 have "0xE0 OR hi < 255" by simp
    then have "(of_nat (0xE0 OR hi) :: byte) \<noteq> 0xFF" by (rule byte_of_nat_neq_FF)
    with Match False show ?thesis by (simp add: lzf_emit_op_def Let_def hi_def)
  qed
qed

lemma lzf_inv_init:
  "lzf_inv n ((replicate (n + 1) \<infinity>)[0 := 0], replicate (n + 1) None)"
  by (auto simp: lzf_inv_def nth_list_update)

text \<open>
  Claim C7, as amended. For every input the parse succeeds and the output is the
  encoding of the chosen operations followed by one byte \<open>0xFF\<close> at the terminal
  position; the control byte that opens the encoding of each operation is never
  \<open>0xFF\<close>. (The bytes after a control byte are free: a literal chunk's payload repeats
  the input's bytes, \<open>0xFF\<close> included.)
\<close>

theorem lzf_end_marker:
  "\<exists>operations.
      lzf_operations input = Some (Inr operations)
    \<and> lzf_compress input = Some (Inr (concat (map (lzf_emit_op input) operations) @ [0xFF]))
    \<and> (\<forall>opn\<in>set operations.
          lzf_emit_op input opn \<noteq> [] \<and> hd (lzf_emit_op input opn) \<noteq> 0xFF)"
proof -
  define st where "st = lzf_dp_loop input 0
      ((replicate (length input + 1) \<infinity>)[0 := 0], replicate (length input + 1) None)"
  have "\<forall>k\<le>0. fst ((replicate (length input + 1) \<infinity>)[0 := 0 :: enat],
                   replicate (length input + 1) (None :: lzf_op option)) ! k \<noteq> \<infinity>"
    by simp
  from lzf_dp_loop_inv [OF lzf_inv_init this]
  have inv: "lzf_inv (length input) st" and fin: "\<forall>k\<le>length input. fst st ! k \<noteq> \<infinity>"
    unfolding st_def by simp_all
  from lzf_reconstruct_ok [OF inv fin, of "length input" "[]"]
  obtain operations where
    r: "lzf_reconstruct (snd st) (length input) [] = Some (Inr operations)"
    and ok: "\<forall>opn\<in>set operations. \<exists>k. lzf_op_ok k opn"
    by auto
  from r have ops: "lzf_operations input = Some (Inr operations)"
    by (simp add: lzf_operations_def Let_def st_def)
  then have "lzf_compress input
      = Some (Inr (concat (map (lzf_emit_op input) operations) @ [0xFF]))"
    by (simp add: lzf_compress_def)
  moreover from ok have "\<forall>opn\<in>set operations.
          lzf_emit_op input opn \<noteq> [] \<and> hd (lzf_emit_op input opn) \<noteq> 0xFF"
    using lzf_emit_op_head by blast
  ultimately show ?thesis using ops by blast
qed

lemma lzf_compress_empty: "lzf_compress [] = Some (Inr [0xFF])"
  by (simp add: lzf_compress_def lzf_operations_def lzf_dp_loop.simps lzf_reconstruct.simps)

lemma lzf_operations_FF: "lzf_operations [0xFF] = Some (Inr [Literal 1 0])"
  by (simp add: lzf_operations_def lzf_dp_loop.simps lzf_reconstruct.simps
       lzf_lit_loop.simps lzf_match_loop.simps lzf_relax_def literalCost_def
       zero_enat_def one_enat_def)

lemma lzf_compress_FF: "lzf_compress [0xFF] = Some (Inr [0x00, 0xFF, 0xFF])"
  by (simp add: lzf_compress_def lzf_operations_FF lzf_emit_op_def)


lemma lzf_operations_sevens: "lzf_operations [7,7,7,7,7,7] = Some (Inr [Literal 1 0, Match 5 1 1])"
  by (simp add: lzf_operations_def lzf_dp_loop.simps lzf_reconstruct.simps
       lzf_lit_loop.simps lzf_match_loop.simps lzf_match_len.simps lzf_relax_def literalCost_def
       matchCost_def zero_enat_def one_enat_def Let_def)

theorem lzf_end_marker_witness:
  "lzf_operations [7,7,7,7,7,7] = Some (Inr [Literal 1 0, Match 5 1 1])
   \<and> lzf_compress [7,7,7,7,7,7] = Some (Inr [0x00, 0x07, 0x60, 0x00, 0xFF])
   \<and> Match 5 1 1 \<in> set [Literal 1 0, Match 5 1 1]
   \<and> lzf_emit_op [7,7,7,7,7,7] (Match 5 1 1) = [0x60, 0x00]
   \<and> hd (lzf_emit_op [7,7,7,7,7,7] (Match 5 1 1)) \<noteq> 0xFF"
  using lzf_end_marker [of "[7,7,7,7,7,7]"]
  by (simp add: lzf_operations_sevens lzf_compress_def lzf_emit_op_def)

text \<open>
  Claim C7 as stated fails: compressing the single byte \<open>0xFF\<close> gives a literal chunk
  whose payload is \<open>0xFF\<close>, so the output holds \<open>0xFF\<close> twice.
\<close>

theorem lzf_single_FF_counterexample:
  "lzf_compress [0xFF] = Some (Inr [0x00, 0xFF, 0xFF])
   \<and> count_list [0x00, 0xFF, 0xFF :: byte] 0xFF \<noteq> 1"
  by (simp add: lzf_compress_FF)

subsection \<open>DAN1: the RAW block and the gamma reader\<close>

lemmas d1_reader_simps = d1_readBit_def d1_readByte_def d1_readEliasGamma_def d1_gamma_count.simps
  d1_readOffset_def d1_readNibble_def d1_readBits_def u8_get_def Let_def

lemma dan1_decompress_raw28: "dan1_decompress dan1_default_MAX
   [0, 0, 0, 64, 0, 1, 2, 3, 4, 5, 6, 7, 8, 9, 10, 11, 12, 13, 14, 15,
        16, 17, 18, 19, 20, 21, 22, 23, 24, 25, 26, 27, 0, 0] = Some (Inr [0])"
  by (simp add: dan1_decompress_def dan1_default_MAX_def d1_dec_loop.simps d1_reader_simps
        d1_writeByte_def d1_resetWriter_def d1_store_def d1_result_def)

lemmas d1_writer_simps = d1_writeByte_def d1_writeBit_def d1_writeBits_def d1_writeBits_loop.simps
  d1_writeEliasGamma_def d1_gamma_zeros.simps d1_gamma_value.simps d1_writeOffset_def
  d1_writeDoublet_def d1_writeLiteralsLength_def d1_writeLiteral_def d1_writeEnd_def
  d1_resetWriter_def d1_store_def d1_result_def Let_def

lemmas d1_dp_simps = d1_dp_loop.simps d1_dp_step_def d1_rle_loop.simps d1_len1_loop.simps
  d1_len_loop.simps d1_chain_loop.simps d1_skip_loop.simps d1_relax_def d1_countBits_def
  d1_eliasGammaBits_def d1_eliasGammaBits_loop.simps d1_initial_state_def
  d1_cleanup_loop.simps d1_cleanup_inner.simps

lemma dan1_compress_raw28: "dan1_compress dan1_default_MAX True
   [0, 1, 2, 3, 4, 5, 6, 7, 8, 9, 10, 11, 12, 13, 14, 15,
        16, 17, 18, 19, 20, 21, 22, 23, 24, 25, 26, 27] = Some (Inr
   [0, 0, 0, 64, 0, 1, 2, 3, 4, 5, 6, 7, 8, 9, 10, 11, 12, 13, 14, 15,
        16, 17, 18, 19, 20, 21, 22, 23, 24, 25, 26, 27, 0, 0])"
  by (simp add: dan1_compress_def dan1_default_MAX_def d1_dp_simps d1_writeLZStream_def
      d1_emit_loop.simps d1_writer_simps)

lemma dan1_raw_marker_bytes:
  "d1_result (2 * dan1_default_MAX) (d1_writeLiteralsLength (2 * dan1_default_MAX) 27 d1_resetWriter)
     = [0x00, 0x00, 0x40, 0x00]"
  by (simp add: dan1_default_MAX_def d1_writer_simps)

lemma dan1_raw_marker_read:
  "d1_readBit [0x00, 0x00, 0x40, 0x00] \<lparr>d1_index_src = 0, d1_rd_bit_mask = 0, d1_rd_bit_index = 0\<rparr>
     = (0, \<lparr>d1_index_src = 1, d1_rd_bit_mask = 0x40, d1_rd_bit_index = 0\<rparr>)
   \<and> d1_readEliasGamma [0x00, 0x00, 0x40, 0x00]
        \<lparr>d1_index_src = 1, d1_rd_bit_mask = 0x40, d1_rd_bit_index = 0\<rparr>
     = (0, \<lparr>d1_index_src = 3, d1_rd_bit_mask = 0x20, d1_rd_bit_index = 2\<rparr>)
   \<and> d1_readBit [0x00, 0x00, 0x40, 0x00]
        \<lparr>d1_index_src = 3, d1_rd_bit_mask = 0x20, d1_rd_bit_index = 2\<rparr>
     = (0, \<lparr>d1_index_src = 3, d1_rd_bit_mask = 0x10, d1_rd_bit_index = 2\<rparr>)"
  by (simp add: d1_reader_simps)

text \<open>
  Claim C1 at DAN1 with the \<open>rle\<close> option, on the 28 bytes 0, 1, ..., 27: the encoder
  emits the first byte, one RAW block of 27 bytes and the END marker; the decoder gives
  back the single byte 0. So \<open>decompress(compress(x))\<close> is not \<open>x\<close> there.
\<close>

theorem dan1_rle_round_trip_fails:
  "dan1_compress dan1_default_MAX True
     [0, 1, 2, 3, 4, 5, 6, 7, 8, 9, 10, 11, 12, 13, 14, 15,
      16, 17, 18, 19, 20, 21, 22, 23, 24, 25, 26, 27]
   = Some (Inr [0, 0, 0, 64, 0, 1, 2, 3, 4, 5, 6, 7, 8, 9, 10, 11, 12, 13, 14, 15,
                16, 17, 18, 19, 20, 21, 22, 23, 24, 25, 26, 27, 0, 0])
   \<and> dan1_decompress dan1_default_MAX
       [0, 0, 0, 64, 0, 1, 2, 3, 4, 5, 6, 7, 8, 9, 10, 11, 12, 13, 14, 15,
        16, 17, 18, 19, 20, 21, 22, 23, 24, 25, 26, 27, 0, 0]
     = Some (Inr [0])
   \<and> [0 :: byte] \<noteq> [0, 1, 2, 3, 4, 5, 6, 7, 8, 9, 10, 11, 12, 13, 14, 15,
      16, 17, 18, 19, 20, 21, 22, 23, 24, 25, 26, 27]"
  by (simp add: dan1_compress_raw28 dan1_decompress_raw28)

text \<open>
  Claim C4 on the encoder's own RAW marker. \<open>_writeLiteralsLength(27)\<close> writes the flag
  0, sixteen 0 bits, the bit 1 and the length byte: the bytes \<open>00 00 40 00\<close>. After the
  decoder has read the flag, \<open>_readEliasGamma\<close> makes 17 reads, the last of which is the
  marker bit 1 itself, and returns 0 with the reader two bits into the third byte: the
  marker is consumed. The bit the decoder reads next to tell RAW from END is the one
  after the marker. On the stream of a first byte, a RAW block of 27 bytes and END,
  that bit is the flag of END, and the decoder stops with one byte of output.
\<close>

theorem dan1_raw_marker_consumed_by_gamma:
  "d1_result (2 * dan1_default_MAX)
       (d1_writeLiteralsLength (2 * dan1_default_MAX) 27 d1_resetWriter)
     = [0x00, 0x00, 0x40, 0x00]
   \<and> d1_readBit [0x00, 0x00, 0x40, 0x00]
        \<lparr>d1_index_src = 0, d1_rd_bit_mask = 0, d1_rd_bit_index = 0\<rparr>
     = (0, \<lparr>d1_index_src = 1, d1_rd_bit_mask = 0x40, d1_rd_bit_index = 0\<rparr>)
   \<and> d1_readEliasGamma [0x00, 0x00, 0x40, 0x00]
        \<lparr>d1_index_src = 1, d1_rd_bit_mask = 0x40, d1_rd_bit_index = 0\<rparr>
     = (0, \<lparr>d1_index_src = 3, d1_rd_bit_mask = 0x20, d1_rd_bit_index = 2\<rparr>)
   \<and> d1_readBit [0x00, 0x00, 0x40, 0x00]
        \<lparr>d1_index_src = 3, d1_rd_bit_mask = 0x20, d1_rd_bit_index = 2\<rparr>
     = (0, \<lparr>d1_index_src = 3, d1_rd_bit_mask = 0x10, d1_rd_bit_index = 2\<rparr>)
   \<and> dan1_decompress dan1_default_MAX
       [0, 0, 0, 64, 0, 1, 2, 3, 4, 5, 6, 7, 8, 9, 10, 11, 12, 13, 14, 15,
        16, 17, 18, 19, 20, 21, 22, 23, 24, 25, 26, 27, 0, 0]
     = Some (Inr [0])"
  using dan1_raw_marker_bytes dan1_raw_marker_read dan1_decompress_raw28 by simp

end
